theory Spec2Isabelle
  imports Complex_Main "HOL-Library.AList"
begin

section \<open>The QRV detection core of h3lix\<close>

text \<open>
  A shallow embedding of \<^verbatim>\<open>src/core/qrv\<close>: the data model of \<^verbatim>\<open>models.py\<close>, the
  HILD state machine (\<^verbatim>\<open>hild.py\<close>), the rogue variable library (\<^verbatim>\<open>rvl.py\<close>), the
  QMS builder (\<^verbatim>\<open>qms.py\<close>), the Hamiltonian builder (\<^verbatim>\<open>hamiltonian.py\<close>), the
  spectral detector (\<^verbatim>\<open>spectral.py\<close>), the aligner (\<^verbatim>\<open>rsl.py\<close>) and the manager
  (\<^verbatim>\<open>manager.py\<close>).

  Conventions. Python floats are idealised as \<^typ>\<open>real\<close> and \<^verbatim>\<open>complex128\<close> as
  \<^typ>\<open>complex\<close>: rounding, overflow and NaN are outside the model. A Python exception
  that leaves a function is the value \<open>Inl e\<close> of a sum type. Mutable objects are
  passed in and returned. What the code obtains from outside the repository (the
  numpy eigensolver and argsort, the graph store, the file system, the event bus,
  \<^verbatim>\<open>uuid4\<close>) is a parameter of the function that uses it.
\<close>

subsection \<open>Errors\<close>

datatype error =
    AccessorError    \<comment> \<open>raised by a call of the graph accessor (repository)\<close>
  | SinkError        \<comment> \<open>raised by the audit file or by the graph-store mirror\<close>
  | BusError         \<comment> \<open>raised while publishing on the event bus\<close>
  | LinAlgError      \<comment> \<open>raised by \<^verbatim>\<open>numpy.linalg.eigh\<close>\<close>
  | ValueError       \<comment> \<open>numpy shape mismatch\<close>
  | IndexError       \<comment> \<open>index out of range\<close>

definition bind_err :: "error + 'a \<Rightarrow> ('a \<Rightarrow> error + 'b) \<Rightarrow> error + 'b" where
  "bind_err m f = (case m of Inl e \<Rightarrow> Inl e | Inr x \<Rightarrow> f x)"

subsection \<open>Data model (\<^verbatim>\<open>models.py\<close>)\<close>

record QMSState =
  basis :: "string list"
  amplitudes :: "complex list"
  qms_session_id :: "string option"
  qms_t_rel_ms :: "real option"
  qms_norm :: real
  meta :: "(string \<times> real option) list"

record RogueDirection =
  direction_id :: string
  eigenvalue :: real
  loadings :: "(string \<times> real) list"
  high_segments :: "string list"
  delta_error :: real

record RogueDetectionResult =
  triggered :: bool
  error_norm :: real
  ablation_improvement :: real
  rogue_directions :: "RogueDirection list"
  rogue_segments :: "string list"
  event_id :: "string option"
  pre_state :: "QMSState option"
  post_state :: "QMSState option"

record RogueEventRecord =
  rec_id :: string
  rec_session_id :: string
  rec_t_rel_ms :: real
  detection :: RogueDetectionResult
  rec_prompt_id :: "string option"

datatype HILDState = Idle | PendingRogue | Clarifying | PassiveSafe | Resolved

record HILDPrompt =
  prompt_id :: string
  anchor :: string
  ambiguity :: string
  request :: string

record HILDStatus =
  session_id :: string
  state :: HILDState
  active_event_id :: "string option"
  prompt :: "HILDPrompt option"
  last_transition_ms :: "real option"

subsection \<open>The HILD state machine (\<^verbatim>\<open>hild.py\<close>)\<close>

record HILDSessionState =
  status :: HILDStatus
  unanswered_retry :: bool

text \<open>\<^verbatim>\<open>HILDStateMachine.sessions\<close>: a dict from session id to session state.\<close>

type_synonym HILDStateMachine = "string \<rightharpoonup> HILDSessionState"

text \<open>\<^verbatim>\<open>sep.join(xs)\<close>\<close>

fun join :: "string \<Rightarrow> string list \<Rightarrow> string" where
  "join sep [] = []"
| "join sep [x] = x"
| "join sep (x # y # ys) = x @ sep @ join sep (y # ys)"

text \<open>
  \<^verbatim>\<open>_make_prompt\<close>. The prompt id is a \<^verbatim>\<open>uuid4\<close> default of the pydantic model; the
  model takes it as the argument \<open>uuid\<close>.
\<close>

definition make_prompt :: "string \<Rightarrow> RogueDetectionResult \<Rightarrow> HILDPrompt" where
  "make_prompt uuid det =
     \<lparr>prompt_id = uuid,
      anchor = ''We observed a divergence between expected and current state.'',
      ambiguity = ''Segments '' @ join '', '' (take 3 (rogue_segments det))
                  @ '' carry unusual loadings.'',
      request = ''Which activity or context best describes your current state?''\<rparr>"

definition get_status :: "HILDStateMachine \<Rightarrow> string \<Rightarrow> HILDStatus" where
  "get_status sessions sid =
     (case sessions sid of
        None \<Rightarrow> \<lparr>session_id = sid, state = Idle, active_event_id = None, prompt = None,
                 last_transition_ms = None\<rparr>
      | Some st \<Rightarrow> status st)"

text \<open>
  \<^verbatim>\<open>on_tick\<close> returns the status and the updated session table. \<open>st0\<close> is the
  session state after the lazy creation of lines 32-37.
\<close>

definition on_tick ::
  "string \<Rightarrow> HILDStateMachine \<Rightarrow> string \<Rightarrow> real \<Rightarrow> RogueDetectionResult
   \<Rightarrow> HILDStatus \<times> HILDStateMachine" where
  "on_tick uuid sessions sid t det =
     (let st0 = (case sessions sid of
                   None \<Rightarrow> \<lparr>status = \<lparr>session_id = sid, state = Idle, active_event_id = None,
                                      prompt = None, last_transition_ms = Some t\<rparr>,
                            unanswered_retry = False\<rparr>
                 | Some s \<Rightarrow> s);
          sessions0 = sessions(sid \<mapsto> st0);
          cur = status st0
      in
        if triggered det \<and> (state cur = Idle \<or> state cur = Resolved) then
          (let new = \<lparr>session_id = sid, state = Clarifying, active_event_id = event_id det,
                      prompt = Some (make_prompt uuid det), last_transition_ms = Some t\<rparr>
           in (new, sessions0(sid \<mapsto> \<lparr>status = new, unanswered_retry = False\<rparr>)))
        else if triggered det \<and> state cur = Clarifying then
          (cur, sessions0)
        else if \<not> triggered det \<and> state cur = Clarifying then
          (if unanswered_retry st0 then
             (let new = \<lparr>session_id = sid, state = PassiveSafe,
                         active_event_id = active_event_id cur, prompt = prompt cur,
                         last_transition_ms = Some t\<rparr>
              in (new, sessions0(sid \<mapsto> st0\<lparr>status := new\<rparr>)))
           else (cur, sessions0(sid \<mapsto> st0\<lparr>unanswered_retry := True\<rparr>)))
        else if state cur = PassiveSafe \<and> \<not> triggered det then
          (let new = \<lparr>session_id = sid, state = Resolved,
                      active_event_id = active_event_id cur, prompt = None,
                      last_transition_ms = Some t\<rparr>
           in (new, sessions0(sid \<mapsto> st0\<lparr>status := new\<rparr>)))
        else (cur, sessions0))"

text \<open>\<^verbatim>\<open>acknowledge\<close>; the response text is not used by the code.\<close>

definition acknowledge ::
  "HILDStateMachine \<Rightarrow> string \<Rightarrow> string \<Rightarrow> real \<Rightarrow> HILDStatus \<times> HILDStateMachine" where
  "acknowledge sessions sid response t =
     (case sessions sid of
        None \<Rightarrow>
          (let new = \<lparr>session_id = sid, state = Idle, active_event_id = None, prompt = None,
                      last_transition_ms = Some t\<rparr>
           in (new, sessions(sid \<mapsto> \<lparr>status = new, unanswered_retry = False\<rparr>)))
      | Some st \<Rightarrow>
          (let new = \<lparr>session_id = sid, state = Resolved,
                      active_event_id = active_event_id (status st), prompt = None,
                      last_transition_ms = Some t\<rparr>
           in (new, sessions(sid \<mapsto> \<lparr>status = new, unanswered_retry = False\<rparr>))))"

text \<open>\<^verbatim>\<open>HILDStateMachine.__init__\<close>: no session yet.\<close>

definition hild_init :: HILDStateMachine where
  "hild_init = Map.empty"

subsection \<open>numpy on one- and two-dimensional arrays\<close>

text \<open>\<^verbatim>\<open>np.linalg.norm\<close> of a vector.\<close>

definition l2norm :: "complex list \<Rightarrow> real" where
  "l2norm v = sqrt (\<Sum>z\<leftarrow>v. (cmod z)\<^sup>2)"

text \<open>
  \<^verbatim>\<open>a - b\<close> on vectors: elementwise on equal shapes, a vector of one element is
  broadcast, any other pair of shapes raises.
\<close>

definition np_sub :: "complex list \<Rightarrow> complex list \<Rightarrow> error + complex list" where
  "np_sub a b =
     (if length a = length b then Inr (map2 (-) a b)
      else if length a = 1 then Inr (map (\<lambda>y. hd a - y) b)
      else if length b = 1 then Inr (map (\<lambda>x. x - hd b) a)
      else Inl ValueError)"

text \<open>\<^verbatim>\<open>np.outer(a, b)\<close>, as a list of rows.\<close>

definition outer :: "complex list \<Rightarrow> complex list \<Rightarrow> complex list list" where
  "outer a b = map (\<lambda>x. map (\<lambda>y. x * y) b) a"

text \<open>\<^verbatim>\<open>h @ v\<close> for a square matrix (list of rows) and a vector.\<close>

definition matvec :: "complex list list \<Rightarrow> complex list \<Rightarrow> error + complex list" where
  "matvec h v =
     (if length h = length v then Inr (map (\<lambda>row. \<Sum>(x, y)\<leftarrow>zip row v. x * y) h)
      else Inl ValueError)"

text \<open>\<^verbatim>\<open>xs[:k]\<close> for a Python integer \<open>k\<close>.\<close>

definition py_take :: "int \<Rightarrow> 'a list \<Rightarrow> 'a list" where
  "py_take k xs = (if 0 \<le> k then take (nat k) xs else take (length xs - nat (- k)) xs)"

text \<open>
  The two library routines the detector relies on. \<open>eigh m\<close> is
  \<^verbatim>\<open>np.linalg.eigh(m)\<close>: the eigenvalues and the eigenvectors, the latter as the list
  of the columns of numpy's matrix (so \<^verbatim>\<open>eigvecs[:, idx]\<close> is \<open>eigvecs ! idx\<close>), or an
  exception. \<open>argsort xs\<close> is \<^verbatim>\<open>np.argsort(xs)\<close>. Which eigenvectors the solver
  returns and how argsort orders equal keys is not fixed by the repository, so both
  are parameters.
\<close>

record numpy =
  eigh :: "complex list list \<Rightarrow> error + (real list \<times> complex list list)"
  argsort :: "real list \<Rightarrow> nat list"

text \<open>What numpy documents of \<^verbatim>\<open>argsort\<close> that the proofs need: a permutation of the indices.\<close>

definition argsort_perm :: "numpy \<Rightarrow> bool" where
  "argsort_perm np = (\<forall>xs. distinct (argsort np xs) \<and> set (argsort np xs) = {..<length xs})"

text \<open>
  The shape of an \<^verbatim>\<open>eigh\<close> result for an \<open>n \<times> n\<close> matrix, and the accuracy of such a
  result: each column \<open>v\<close> has a norm within \<open>eps\<close> of 1 and, with its eigenvalue \<open>lam\<close>, a
  residual \<open>m v - lam v\<close> of norm at most \<open>eps\<close>. An exact decomposition has accuracy 0.
\<close>

definition eigh_shape :: "nat \<Rightarrow> real list \<times> complex list list \<Rightarrow> bool" where
  "eigh_shape n r = (length (fst r) = n \<and> length (snd r) = n \<and> (\<forall>c \<in> set (snd r). length c = n))"

definition residual :: "complex list list \<Rightarrow> real \<Rightarrow> complex list \<Rightarrow> real" where
  "residual m lam v =
     l2norm (map2 (\<lambda>row z. (\<Sum>(x, y)\<leftarrow>zip row v. x * y) - complex_of_real lam * z) m v)"

definition eigh_approx :: "real \<Rightarrow> complex list list \<Rightarrow> real list \<times> complex list list \<Rightarrow> bool" where
  "eigh_approx eps m r =
     (eigh_shape (length m) r \<and>
      (\<forall>k < length m. \<bar>l2norm (snd r ! k) - 1\<bar> \<le> eps
                      \<and> residual m (fst r ! k) (snd r ! k) \<le> eps))"

text \<open>\<^verbatim>\<open>eigh\<close> returns on a matrix, with a result of the right shape.\<close>

definition eigh_returns :: "numpy \<Rightarrow> complex list list \<Rightarrow> bool" where
  "eigh_returns np m = (\<exists>r. eigh np m = Inr r \<and> eigh_shape (length m) r)"

text \<open>A stable argsort (insertion sort on the indices), one admissible \<^verbatim>\<open>np.argsort\<close>.\<close>

definition argsort_stable :: "real list \<Rightarrow> nat list" where
  "argsort_stable xs = sort_key (\<lambda>i. xs ! i) [0..<length xs]"

subsection \<open>The spectral rogue detector (\<^verbatim>\<open>spectral.py\<close>)\<close>

record SpectralRogueDetector =
  max_directions :: int
  loading_top_k :: int
  improvement_tolerance :: real

text \<open>The defaults of \<^verbatim>\<open>SpectralRogueDetector.__init__\<close>.\<close>

definition default_detector :: SpectralRogueDetector where
  "default_detector = \<lparr>max_directions = 3, loading_top_k = 5, improvement_tolerance = 1 / 1000000\<rparr>"

definition error_operator ::
  "complex list \<Rightarrow> complex list \<Rightarrow> error + (complex list list \<times> real)" where
  "error_operator psi_obs psi_pred =
     bind_err (np_sub psi_obs psi_pred) (\<lambda>delta. Inr (outer delta (map cnj delta), l2norm delta))"

text \<open>The comprehension \<^verbatim>\<open>[basis[i] for i in top_idx if mags[i] > 0]\<close>.\<close>

fun pick_loaded :: "string list \<Rightarrow> real list \<Rightarrow> nat list \<Rightarrow> error + string list" where
  "pick_loaded bs mags [] = Inr []"
| "pick_loaded bs mags (i # rest) =
     (if length mags \<le> i then Inl IndexError
      else if mags ! i > 0 then
        (if length bs \<le> i then Inl IndexError
         else bind_err (pick_loaded bs mags rest) (\<lambda>r. Inr (bs ! i # r)))
      else pick_loaded bs mags rest)"

definition top_loadings ::
  "numpy \<Rightarrow> SpectralRogueDetector \<Rightarrow> complex list \<Rightarrow> string list \<Rightarrow> error + string list" where
  "top_loadings np det vec bs =
     (let mags = map cmod vec;
          sorted_idx = rev (argsort np mags);
          top_idx = py_take (loading_top_k det) sorted_idx
      in pick_loaded bs mags top_idx)"

definition ablate :: "complex list \<Rightarrow> complex list \<Rightarrow> nat list \<Rightarrow> error + real" where
  "ablate psi_obs psi_pred indices =
     (let psi_hat0 = fold (\<lambda>idx v. if idx < length v then v[idx := 0] else v) indices psi_obs;
          nrm = l2norm psi_hat0;
          psi_hat = (if nrm > 0 then map (\<lambda>z. z / complex_of_real nrm) psi_hat0 else psi_hat0)
      in bind_err (np_sub psi_hat psi_pred) (\<lambda>d. Inr (l2norm d)))"

text \<open>Decimal digits of a number, for \<^verbatim>\<open>f"chi_{idx}"\<close>.\<close>

fun string_of_nat :: "nat \<Rightarrow> string" where
  "string_of_nat n =
     (if n < 10 then [char_of (48 + n)]
      else string_of_nat (n div 10) @ [char_of (48 + n mod 10)])"

text \<open>
  The dict comprehension \<^verbatim>\<open>{basis_id: float(abs(vec[i]) ** 2) for i, basis_id in enumerate(basis)}\<close>:
  a later entry for the same key replaces the value and keeps the key's place.
\<close>

fun loads_of :: "complex list \<Rightarrow> (nat \<times> string) list \<Rightarrow> (string \<times> real) list
                 \<Rightarrow> error + (string \<times> real) list" where
  "loads_of vec [] acc = Inr acc"
| "loads_of vec ((i, b) # rest) acc =
     (if length vec \<le> i then Inl IndexError
      else loads_of vec rest (AList.update b ((cmod (vec ! i))\<^sup>2) acc))"

text \<open>
  The loop over \<^verbatim>\<open>order[: self.max_directions]\<close> of \<^verbatim>\<open>detect\<close>: the directions in the
  order they are appended, and \<^verbatim>\<open>high_segments\<close> after all the \<^verbatim>\<open>extend\<close> calls.
\<close>

fun directions_loop ::
  "numpy \<Rightarrow> SpectralRogueDetector \<Rightarrow> string list \<Rightarrow> real list \<Rightarrow> complex list list
   \<Rightarrow> nat list \<Rightarrow> error + (RogueDirection list \<times> string list)" where
  "directions_loop np det bs eigvals eigvecs [] = Inr ([], [])"
| "directions_loop np det bs eigvals eigvecs (idx # rest) =
     (if length eigvals \<le> idx \<or> length eigvecs \<le> idx then Inl IndexError
      else
        (let val = eigvals ! idx; vec = eigvecs ! idx in
         bind_err (loads_of vec (enumerate 0 bs) []) (\<lambda>loads.
         bind_err (top_loadings np det vec bs) (\<lambda>top_segs.
         bind_err (directions_loop np det bs eigvals eigvecs rest) (\<lambda>(dirs, high).
           Inr (\<lparr>direction_id = ''chi_'' @ string_of_nat idx, eigenvalue = val,
                 loadings = loads, high_segments = top_segs, delta_error = 0\<rparr> # dirs,
                top_segs @ high))))))"

text \<open>\<^verbatim>\<open>list(dict.fromkeys(xs))\<close>: the first occurrence of each element, in order.\<close>

fun fromkeys :: "'a list \<Rightarrow> 'a list" where
  "fromkeys [] = []"
| "fromkeys (x # xs) = x # filter (\<lambda>y. y \<noteq> x) (fromkeys xs)"

text \<open>\<^verbatim>\<open>xs.index(x)\<close> for an \<open>x\<close> that occurs in \<open>xs\<close>.\<close>

fun list_index :: "'a list \<Rightarrow> 'a \<Rightarrow> nat" where
  "list_index [] x = 0"
| "list_index (y # ys) x = (if x = y then 0 else Suc (list_index ys x))"

definition detect ::
  "numpy \<Rightarrow> SpectralRogueDetector \<Rightarrow> QMSState \<Rightarrow> QMSState \<Rightarrow> error + RogueDetectionResult" where
  "detect np det observed predicted =
     (let psi_obs = amplitudes observed; psi_pred = amplitudes predicted in
      if psi_obs = [] then
        Inr \<lparr>triggered = False, error_norm = 0, ablation_improvement = 0,
             rogue_directions = [], rogue_segments = [], event_id = None,
             pre_state = Some observed, post_state = Some predicted\<rparr>
      else
        bind_err (error_operator psi_obs psi_pred) (\<lambda>(oe, err_norm).
        bind_err (eigh np oe) (\<lambda>(eigvals, eigvecs).
        let order = rev (argsort np eigvals) in
        bind_err (directions_loop np det (basis observed) eigvals eigvecs
                    (py_take (max_directions det) order)) (\<lambda>(rogue_dirs, high).
        let unique_high = fromkeys high;
            ablate_indices = map (list_index (basis observed))
                               (filter (\<lambda>seg. seg \<in> set (basis observed)) unique_high) in
        bind_err (ablate psi_obs psi_pred ablate_indices) (\<lambda>ablated_error.
        let improvement = ablated_error - err_norm in
        Inr \<lparr>triggered = (improvement < - improvement_tolerance det),
             error_norm = err_norm,
             ablation_improvement = improvement,
             rogue_directions = map (\<lambda>rd. rd\<lparr>delta_error := improvement\<rparr>) rogue_dirs,
             rogue_segments = unique_high,
             event_id = None,
             pre_state = Some observed, post_state = Some predicted\<rparr>)))))"

subsection \<open>The graph accessor (\<^verbatim>\<open>mpg/repository.py\<close>, as far as the core calls it)\<close>

text \<open>
  A segment is the dict of a node: its id and its numeric attributes by name. A state
  snapshot carries the two optional metrics the builder reads. An edge of the graph is
  what \<^verbatim>\<open>graph.edges(data=True)\<close> yields; \<^verbatim>\<open>strength\<close> and \<^verbatim>\<open>confidence\<close> may be
  missing from the edge data.
\<close>

record segment =
  seg_id :: string
  seg_attrs :: "(string \<times> real) list"

record segment_state =
  coherence :: "real option"
  potency :: "real option"

record edge_data =
  strength :: "real option"
  confidence :: "real option"

type_synonym edge = "string \<times> string \<times> edge_data"

text \<open>The three calls of the accessor; each returns or raises.\<close>

record repo =
  top_segments :: "int \<Rightarrow> error + segment list"
  get_segment_states :: "string \<Rightarrow> int \<Rightarrow> error + segment_state list"
  get_graph :: "int \<Rightarrow> error + edge list"

subsection \<open>The QMS builder (\<^verbatim>\<open>qms.py\<close>)\<close>

record QMSBuilder =
  qb_repo :: repo
  weights :: "(string \<times> real) list"
  include_state_metrics :: bool

text \<open>The default weights of \<^verbatim>\<open>QMSBuilder.__init__\<close>, in the order of the dict literal.\<close>

definition default_weights :: "(string \<times> real) list" where
  "default_weights =
     [(''importance'', 4 / 10), (''confidence'', 25 / 100), (''stability'', 1 / 10),
      (''recency'', 1 / 10), (''intensity'', 1 / 10), (''valence'', 5 / 100),
      (''coherence'', 15 / 100), (''potency'', 1 / 10)]"

text \<open>\<^verbatim>\<open>float(x or 0.0)\<close> for an optional number.\<close>

definition or_zero :: "real option \<Rightarrow> real" where
  "or_zero x = (case x of None \<Rightarrow> 0 | Some v \<Rightarrow> v)"

text \<open>\<^verbatim>\<open>_latest_state\<close>: the \<^verbatim>\<open>except Exception\<close> turns a raising lookup into \<open>(0, 0)\<close>.\<close>

definition latest_state :: "QMSBuilder \<Rightarrow> string \<Rightarrow> real \<times> real" where
  "latest_state qb segment_id =
     (if \<not> include_state_metrics qb then (0, 0)
      else case get_segment_states (qb_repo qb) segment_id 1 of
             Inl e \<Rightarrow> (0, 0)
           | Inr [] \<Rightarrow> (0, 0)
           | Inr (st # rest) \<Rightarrow> (or_zero (coherence st), or_zero (potency st)))"

text \<open>\<^verbatim>\<open>_amplitude_from_segment\<close>: the loop over \<^verbatim>\<open>self.weights.items()\<close> is a fold.\<close>

definition amplitude_from_segment :: "QMSBuilder \<Rightarrow> segment \<Rightarrow> real" where
  "amplitude_from_segment qb seg =
     (let (coh, pot) = latest_state qb (seg_id seg) in
      fold (\<lambda>(key, weight) total.
              if key = ''coherence'' then total + weight * coh
              else if key = ''potency'' then total + weight * pot
              else total + weight * (case map_of (seg_attrs seg) key of None \<Rightarrow> 0 | Some v \<Rightarrow> v))
           (weights qb) 0)"

text \<open>
  \<^verbatim>\<open>amplitudes[: overrides.size] += overrides\<close> after
  \<^verbatim>\<open>overrides = overrides[: amplitudes.size]\<close>: the overrides are added to the leading
  amplitudes, the longer list decides nothing.
\<close>

fun add_overrides :: "complex list \<Rightarrow> complex list \<Rightarrow> complex list" where
  "add_overrides [] ovs = []"
| "add_overrides (a # as) [] = a # as"
| "add_overrides (a # as) (v # ovs) = (a + v) # add_overrides as ovs"

text \<open>The amplitude vector of \<^verbatim>\<open>build_from_segments\<close> before it is normalised (lines 65-70).\<close>

definition raw_amplitudes :: "QMSBuilder \<Rightarrow> segment list \<Rightarrow> real list option \<Rightarrow> complex list" where
  "raw_amplitudes qb segments feature_overrides =
     (let amps = map (\<lambda>seg. complex_of_real (amplitude_from_segment qb seg)) segments in
      case feature_overrides of
        None \<Rightarrow> amps
      | Some ovs \<Rightarrow> add_overrides amps (map complex_of_real ovs))"

definition build_from_segments ::
  "QMSBuilder \<Rightarrow> string \<Rightarrow> real \<Rightarrow> int \<Rightarrow> real list option \<Rightarrow> error + QMSState" where
  "build_from_segments qb sid t limit feature_overrides =
     bind_err (top_segments (qb_repo qb) limit) (\<lambda>segments.
       let amps = raw_amplitudes qb segments feature_overrides;
           nrm = l2norm amps;
           amps' = (if nrm > 0 then map (\<lambda>z. z / complex_of_real nrm) amps else amps)
       in Inr \<lparr>basis = map seg_id segments, amplitudes = amps', qms_session_id = Some sid,
                qms_t_rel_ms = Some t, qms_norm = nrm, meta = []\<rparr>)"

text \<open>
  The same build with the two numpy operations of lines 71-73 as parameters:
  \<^verbatim>\<open>np.linalg.norm\<close> and the division of an array by a float. \<open>exact_arith\<close> computes
  both over the reals and gives \<open>build_from_segments\<close> back. \<open>underflow_arith\<close> keeps one
  effect of double precision in the norm: a squared magnitude below \<open>1e-330\<close>, which is
  below half the least positive double, is rounded to 0.
\<close>

record np_arith =
  linalg_norm :: "complex list \<Rightarrow> real"
  array_div :: "complex list \<Rightarrow> real \<Rightarrow> complex list"

definition exact_arith :: np_arith where
  "exact_arith =
     \<lparr>linalg_norm = l2norm, array_div = (\<lambda>v n. map (\<lambda>z. z / complex_of_real n) v)\<rparr>"

definition build_from_segments_np ::
  "np_arith \<Rightarrow> QMSBuilder \<Rightarrow> string \<Rightarrow> real \<Rightarrow> int \<Rightarrow> real list option
   \<Rightarrow> error + QMSState" where
  "build_from_segments_np ar qb sid t limit feature_overrides =
     bind_err (top_segments (qb_repo qb) limit) (\<lambda>segments.
       let amps = raw_amplitudes qb segments feature_overrides;
           nrm = linalg_norm ar amps;
           amps' = (if nrm > 0 then array_div ar amps nrm else amps)
       in Inr \<lparr>basis = map seg_id segments, amplitudes = amps', qms_session_id = Some sid,
                qms_t_rel_ms = Some t, qms_norm = nrm, meta = []\<rparr>)"



subsection \<open>The Hamiltonian builder (\<^verbatim>\<open>hamiltonian.py\<close>)\<close>

record HamiltonianBuilder =
  hb_repo :: repo
  diag_damping :: real

text \<open>\<^verbatim>\<open>h[i, j] += v\<close> on a matrix held as a list of rows.\<close>

definition mat_add :: "complex list list \<Rightarrow> nat \<Rightarrow> nat \<Rightarrow> complex \<Rightarrow> complex list list" where
  "mat_add h i j v = h[i := (h ! i)[j := h ! i ! j + v]]"

text \<open>
  \<^verbatim>\<open>build\<close>. \<open>index\<close> is the dict comprehension over \<^verbatim>\<open>enumerate(basis)\<close> (a repeated
  id keeps its last position); \<^verbatim>\<open>data.get("strength", 0.0)\<close> and
  \<^verbatim>\<open>data.get("confidence", 1.0)\<close> supply the defaults.
\<close>

definition build :: "HamiltonianBuilder \<Rightarrow> string list \<Rightarrow> int \<Rightarrow> error + complex list list" where
  "build hb bs level =
     bind_err (get_graph (hb_repo hb) level) (\<lambda>edges.
       let n = length bs;
           h0 = replicate n (replicate n 0);
           index = fold (\<lambda>(i, node_id) m. m(node_id \<mapsto> i)) (enumerate 0 bs) Map.empty;
           h1 = fold (\<lambda>(u, v, data) h.
                        case (index u, index v) of
                          (Some i, Some j) \<Rightarrow>
                             mat_add h i j
                               (complex_of_real
                                  ((case strength data of None \<Rightarrow> 0 | Some x \<Rightarrow> x)
                                   * (case confidence data of None \<Rightarrow> 1 | Some c \<Rightarrow> c)))
                        | _ \<Rightarrow> h)
                     edges h0;
           h2 = fold (\<lambda>i h. mat_add h i i
                        (- complex_of_real (diag_damping hb * (\<Sum>z\<leftarrow>h ! i. cmod z))))
                     [0..<n] h1
       in Inr h2)"

text \<open>\<^verbatim>\<open>predict\<close>: one Euler step \<open>psi - i dt (H psi)\<close>, then the normalisation.\<close>

definition predict :: "HamiltonianBuilder \<Rightarrow> QMSState \<Rightarrow> real \<Rightarrow> error + QMSState" where
  "predict hb prev_state dt =
     (let psi_prev = amplitudes prev_state in
      bind_err (build hb (basis prev_state) 1) (\<lambda>h.
      bind_err (matvec h psi_prev) (\<lambda>h_psi.
        let psi_pred0 = map2 (\<lambda>p q. p - \<i> * complex_of_real dt * q) psi_prev h_psi;
            nrm = l2norm psi_pred0;
            psi_pred = (if nrm > 0 then map (\<lambda>z. z / complex_of_real nrm) psi_pred0
                        else psi_pred0)
        in Inr \<lparr>basis = basis prev_state, amplitudes = psi_pred,
                 qms_session_id = qms_session_id prev_state,
                 qms_t_rel_ms = qms_t_rel_ms prev_state, qms_norm = nrm,
                 meta = [(''predicted_from'', qms_t_rel_ms prev_state)]\<rparr>)))"

subsection \<open>The rogue variable library (\<^verbatim>\<open>rvl.py\<close>)\<close>

text \<open>One row of the audit table, as \<^verbatim>\<open>_write_audit\<close> builds it.\<close>

record audit_row =
  row_id :: string
  row_session_id :: string
  row_t_rel_ms :: real
  row_rogue_segments :: string
  row_error_norm :: real
  row_ablation_improvement :: real
  row_prompt_id :: "string option"
  row_pre_basis :: string
  row_post_basis :: string
  row_pre_amplitudes :: "complex list"
  row_post_amplitudes :: "complex list"

text \<open>
  The file system at \<^verbatim>\<open>audit_path\<close>: the rows of the parquet file (\<open>None\<close> when the
  file does not exist) and, for each of the three calls that touch it
  (\<^verbatim>\<open>mkdir\<close>, \<^verbatim>\<open>pd.read_parquet\<close>, \<^verbatim>\<open>df.to_parquet\<close>), the exception it raises, if any.
\<close>

record audit_store =
  mkdir_raises :: "error option"
  read_raises :: "error option"
  write_raises :: "error option"
  audit_rows :: "audit_row list option"

text \<open>
  The graph store behind a \<^verbatim>\<open>Neo4jMPGRepository\<close>: opening a session, running one of the
  write statements of \<^verbatim>\<open>_persist_neo4j\<close>, running the query of \<^verbatim>\<open>list_events\<close>.
\<close>

datatype cypher_write =
    MergeEvent string
  | MergePreState string string
  | MergePostState string string
  | MergeDirection string string
  | MergeInvolves string string

type_synonym event_node = "(string \<times> string) list"

record neo4j_driver =
  open_session :: "error option"
  run_write :: "cypher_write \<Rightarrow> error option"
  run_events_query :: "string option \<Rightarrow> error + event_node list"

text \<open>
  \<open>rvl_repo\<close> is \<open>None\<close> for an \<^verbatim>\<open>InMemoryMPGRepository\<close> (the \<^verbatim>\<open>isinstance\<close> tests fail)
  and the driver of the repository otherwise.
\<close>

record RogueVariableLibrary =
  rvl_repo :: "neo4j_driver option"
  audit_path :: audit_store
  in_memory :: "RogueEventRecord list"

definition audit_row_of :: "RogueEventRecord \<Rightarrow> audit_row" where
  "audit_row_of r =
     (let d = detection r in
      \<lparr>row_id = rec_id r, row_session_id = rec_session_id r, row_t_rel_ms = rec_t_rel_ms r,
       row_rogue_segments = join '','' (rogue_segments d),
       row_error_norm = error_norm d,
       row_ablation_improvement = ablation_improvement d,
       row_prompt_id = rec_prompt_id r,
       row_pre_basis = (case pre_state d of None \<Rightarrow> [] | Some q \<Rightarrow> join '','' (basis q)),
       row_post_basis = (case post_state d of None \<Rightarrow> [] | Some q \<Rightarrow> join '','' (basis q)),
       row_pre_amplitudes = (case pre_state d of None \<Rightarrow> [] | Some q \<Rightarrow> amplitudes q),
       row_post_amplitudes = (case post_state d of None \<Rightarrow> [] | Some q \<Rightarrow> amplitudes q)\<rparr>)"

text \<open>\<^verbatim>\<open>_write_audit\<close>: no statement of it sits in a \<^verbatim>\<open>try\<close>.\<close>

definition write_audit ::
  "RogueVariableLibrary \<Rightarrow> RogueEventRecord \<Rightarrow> (error + unit) \<times> RogueVariableLibrary" where
  "write_audit lib r =
     (let fs = audit_path lib in
      case mkdir_raises fs of
        Some e \<Rightarrow> (Inl e, lib)
      | None \<Rightarrow>
          (let df = [audit_row_of r] in
           case (case audit_rows fs of
                   None \<Rightarrow> Inr df
                 | Some existing \<Rightarrow>
                     (case read_raises fs of Some e \<Rightarrow> Inl e | None \<Rightarrow> Inr (existing @ df))) of
             Inl e \<Rightarrow> (Inl e, lib)
           | Inr df' \<Rightarrow>
               (case write_raises fs of
                  Some e \<Rightarrow> (Inl e, lib)
                | None \<Rightarrow> (Inr (), lib\<lparr>audit_path := fs\<lparr>audit_rows := Some df'\<rparr>\<rparr>))))"

text \<open>The statements \<^verbatim>\<open>_persist_neo4j\<close> runs for a record, in order.\<close>

definition mirror_statements :: "RogueEventRecord \<Rightarrow> cypher_write list" where
  "mirror_statements r =
     (let d = detection r in
      [MergeEvent (rec_id r)]
      @ (case pre_state d of None \<Rightarrow> [] | Some q \<Rightarrow> [MergePreState (rec_id r @ ''_pre'') (rec_id r)])
      @ (case post_state d of None \<Rightarrow> [] | Some q \<Rightarrow> [MergePostState (rec_id r @ ''_post'') (rec_id r)])
      @ concat (map (\<lambda>dir. MergeDirection (direction_id dir) (rec_id r)
                           # map (MergeInvolves (direction_id dir)) (high_segments dir))
                    (rogue_directions d)))"

fun run_all :: "(cypher_write \<Rightarrow> error option) \<Rightarrow> cypher_write list \<Rightarrow> error + unit" where
  "run_all run [] = Inr ()"
| "run_all run (c # cs) = (case run c of Some e \<Rightarrow> Inl e | None \<Rightarrow> run_all run cs)"

definition persist_neo4j :: "RogueVariableLibrary \<Rightarrow> RogueEventRecord \<Rightarrow> error + unit" where
  "persist_neo4j lib r =
     (case rvl_repo lib of
        None \<Rightarrow> Inr ()
      | Some driver \<Rightarrow>
          (case open_session driver of
             Some e \<Rightarrow> Inl e
           | None \<Rightarrow> run_all (run_write driver) (mirror_statements r)))"

text \<open>
  \<^verbatim>\<open>record\<close> (named \<open>record_event\<close>, \<open>record\<close> being a keyword here): the append, then
  the two sinks; an exception of a sink leaves \<^verbatim>\<open>record\<close> with the library as it is at
  that point.
\<close>

definition record_event ::
  "RogueVariableLibrary \<Rightarrow> RogueEventRecord \<Rightarrow> (error + unit) \<times> RogueVariableLibrary" where
  "record_event lib r =
     (let lib1 = lib\<lparr>in_memory := in_memory lib @ [r]\<rparr> in
      case write_audit lib1 r of
        (Inl e, lib2) \<Rightarrow> (Inl e, lib2)
      | (Inr u, lib2) \<Rightarrow>
          (case persist_neo4j lib2 r of
             Inl e \<Rightarrow> (Inl e, lib2)
           | Inr u' \<Rightarrow> (Inr (), lib2)))"

text \<open>
  An element of the list \<^verbatim>\<open>list_events\<close> returns: the dump of an in-memory record, or the
  properties of a node of the graph store.
\<close>

datatype event = Dumped RogueEventRecord | StoreNode event_node

text \<open>
  \<^verbatim>\<open>list_events\<close>. The filter \<^verbatim>\<open>if session_id and rec.session_id != session_id\<close> skips
  nothing when the argument is \<^verbatim>\<open>None\<close> or the empty string.
\<close>

definition list_events :: "RogueVariableLibrary \<Rightarrow> string option \<Rightarrow> error + event list" where
  "list_events lib sid =
     (let events = map Dumped
                     (filter (\<lambda>r. \<not> (sid \<noteq> None \<and> sid \<noteq> Some [] \<and> Some (rec_session_id r) \<noteq> sid))
                             (in_memory lib)) in
      case rvl_repo lib of
        None \<Rightarrow> Inr events
      | Some driver \<Rightarrow>
          (case open_session driver of
             Some e \<Rightarrow> Inl e
           | None \<Rightarrow> bind_err (run_events_query driver sid)
                       (\<lambda>rows. Inr (events @ map StoreNode rows))))"

subsection \<open>The aligner (\<^verbatim>\<open>rsl.py\<close>, \<^verbatim>\<open>align\<close> only)\<close>

record RosettaStoneAligner =
  noise :: real

record aligned =
  al_basis :: "string list"
  aligned_state :: "complex list"
  al_norm :: real

text \<open>\<open>gauss n\<close> stands for the draw \<^verbatim>\<open>default_rng().standard_normal(n)\<close>.\<close>

definition align :: "(nat \<Rightarrow> real list) \<Rightarrow> RosettaStoneAligner \<Rightarrow> QMSState \<Rightarrow> aligned" where
  "align gauss al qms =
     (let vec0 = amplitudes qms;
          vec1 = (if noise al > 0
                  then map2 (\<lambda>z g. z + complex_of_real (noise al) * (complex_of_real g * \<i>))
                         vec0 (gauss (length vec0))
                  else vec0);
          nrm = l2norm vec1;
          vec = (if nrm > 0 then map (\<lambda>z. z / complex_of_real nrm) vec1 else vec1)
      in \<lparr>al_basis = basis qms, aligned_state = vec, al_norm = nrm\<rparr>)"

subsection \<open>The manager (\<^verbatim>\<open>manager.py\<close>)\<close>

text \<open>The two messages \<^verbatim>\<open>process_tick\<close> publishes.\<close>

datatype message =
    QrvDetectionMsg string real string "string list" real real
  | HildStatusMsg string real HILDState "string option"

text \<open>
  \<open>bus\<close> is \<open>None\<close> when the manager has no bus; otherwise it tells, for a message, the
  exception that scheduling or running \<^verbatim>\<open>bus.publish\<close> raises, if any.
\<close>

record QRVManager =
  qms_builder :: QMSBuilder
  hamiltonian :: HamiltonianBuilder
  detector :: SpectralRogueDetector
  hild :: HILDStateMachine
  rvl :: RogueVariableLibrary
  rsl :: RosettaStoneAligner
  qms_limit :: int
  last_qms :: "string \<rightharpoonup> QMSState"
  bus :: "(message \<Rightarrow> error option) option"

text \<open>What a tick takes from outside: numpy, the two \<^verbatim>\<open>uuid4\<close> draws, the noise draw.\<close>

record tick_env =
  env_numpy :: numpy
  event_uuid :: string
  prompt_uuid :: string
  env_gauss :: "nat \<Rightarrow> real list"

text \<open>The dict \<^verbatim>\<open>process_tick\<close> returns.\<close>

record tick_result =
  res_qms_observed :: QMSState
  res_qms_predicted :: QMSState
  res_detection :: RogueDetectionResult
  res_hild :: HILDStatus
  res_aligned :: aligned
  res_event_id :: "string option"

text \<open>\<^verbatim>\<open>HILDPrompt.text\<close>\<close>

definition prompt_text :: "HILDPrompt \<Rightarrow> string" where
  "prompt_text p = anchor p @ '' '' @ ambiguity p @ '' '' @ request p"

text \<open>\<^verbatim>\<open>_publish_event\<close>: nothing without a bus; no \<^verbatim>\<open>except\<close> around the publication.\<close>

definition publish_event :: "QRVManager \<Rightarrow> message \<Rightarrow> error + unit" where
  "publish_event mgr msg =
     (case bus mgr of
        None \<Rightarrow> Inr ()
      | Some pub \<Rightarrow> (case pub msg of Some e \<Rightarrow> Inl e | None \<Rightarrow> Inr ()))"

text \<open>
  The block \<^verbatim>\<open>if detection.triggered:\<close> of \<^verbatim>\<open>process_tick\<close> (lines 55-75): the detection
  with its event id, the event id, and the manager after \<^verbatim>\<open>rvl.record\<close>.
\<close>

definition record_detection ::
  "tick_env \<Rightarrow> QRVManager \<Rightarrow> string \<Rightarrow> real \<Rightarrow> RogueDetectionResult
   \<Rightarrow> (error + (RogueDetectionResult \<times> string option)) \<times> QRVManager" where
  "record_detection env mgr sid t det0 =
     (if triggered det0 then
        (let eid = event_uuid env;
             det = det0\<lparr>event_id := Some eid\<rparr>;
             r = \<lparr>rec_id = eid, rec_session_id = sid, rec_t_rel_ms = t, detection = det,
                  rec_prompt_id = None\<rparr>
         in case record_event (rvl mgr) r of
              (Inl e, lib) \<Rightarrow> (Inl e, mgr\<lparr>rvl := lib\<rparr>)
            | (Inr u, lib) \<Rightarrow>
                (let mgr1 = mgr\<lparr>rvl := lib\<rparr> in
                 case publish_event mgr1
                        (QrvDetectionMsg sid t eid (rogue_segments det) (error_norm det)
                           (ablation_improvement det)) of
                   Inl e \<Rightarrow> (Inl e, mgr1)
                 | Inr u' \<Rightarrow> (Inr (det, Some eid), mgr1)))
      else (Inr (det0, None), mgr))"

text \<open>\<^verbatim>\<open>self._last_qms.get(session_id, observed)\<close>\<close>

definition prior_state :: "QRVManager \<Rightarrow> string \<Rightarrow> QMSState \<Rightarrow> QMSState" where
  "prior_state mgr sid observed = (case last_qms mgr sid of None \<Rightarrow> observed | Some q \<Rightarrow> q)"

text \<open>
  \<^verbatim>\<open>max((t_rel_ms - (prev.t_rel_ms or t_rel_ms)), 1.0) / 1000.0\<close>: a prior time that is
  \<^verbatim>\<open>None\<close> or \<open>0\<close> is replaced by the tick time.
\<close>

definition elapsed_dt :: "real \<Rightarrow> QMSState \<Rightarrow> real" where
  "elapsed_dt t prev =
     max (t - (case qms_t_rel_ms prev of None \<Rightarrow> t | Some p \<Rightarrow> if p = 0 then t else p)) 1
       / 1000"

text \<open>
  \<^verbatim>\<open>process_tick\<close>: the result or the exception that leaves it, and the manager as the
  call leaves it. The body has no \<^verbatim>\<open>try\<close>.
\<close>

definition process_tick ::
  "tick_env \<Rightarrow> QRVManager \<Rightarrow> string \<Rightarrow> real \<Rightarrow> real list option
   \<Rightarrow> (error + tick_result) \<times> QRVManager" where
  "process_tick env mgr sid t feature_overrides =
     (case build_from_segments (qms_builder mgr) sid t (qms_limit mgr) feature_overrides of
        Inl e \<Rightarrow> (Inl e, mgr)
      | Inr observed \<Rightarrow>
     (let prev = prior_state mgr sid observed;
          dt = elapsed_dt t prev
      in case predict (hamiltonian mgr) prev dt of
        Inl e \<Rightarrow> (Inl e, mgr)
      | Inr predicted \<Rightarrow>
     (case detect (env_numpy env) (detector mgr) observed predicted of
        Inl e \<Rightarrow> (Inl e, mgr)
      | Inr det0 \<Rightarrow>
     (case record_detection env mgr sid t det0 of
        (Inl e, mgr1) \<Rightarrow> (Inl e, mgr1)
      | (Inr (det, eid), mgr1) \<Rightarrow>
     (let (st, sessions') = on_tick (prompt_uuid env) (hild mgr1) sid t det;
          mgr2 = mgr1\<lparr>hild := sessions'\<rparr>
      in case publish_event mgr2
                (HildStatusMsg sid t (state st) (map_option prompt_text (prompt st))) of
        Inl e \<Rightarrow> (Inl e, mgr2)
      | Inr u \<Rightarrow>
          (let mgr3 = mgr2\<lparr>last_qms := (last_qms mgr2)(sid \<mapsto> observed)\<rparr>
           in (Inr \<lparr>res_qms_observed = observed, res_qms_predicted = predicted,
                    res_detection = det, res_hild = st,
                    res_aligned = align (env_gauss env) (rsl mgr3) observed,
                    res_event_id = eid\<rparr>,
               mgr3)))))))"

definition acknowledge_prompt ::
  "QRVManager \<Rightarrow> string \<Rightarrow> string \<Rightarrow> real \<Rightarrow> HILDStatus \<times> QRVManager" where
  "acknowledge_prompt mgr sid response t =
     (let (st, sessions') = acknowledge (hild mgr) sid response t
      in (st, mgr\<lparr>hild := sessions'\<rparr>))"

subsection \<open>Concrete inputs\<close>

text \<open>A detection result with a given \<^verbatim>\<open>triggered\<close> flag, for the HILD scenarios.\<close>

definition example_detection :: "bool \<Rightarrow> RogueDetectionResult" where
  "example_detection b =
     \<lparr>triggered = b, error_norm = 0, ablation_improvement = 0, rogue_directions = [],
      rogue_segments = [''a'', ''b''], event_id = (if b then Some ''e1'' else None),
      pre_state = None, post_state = None\<rparr>"

text \<open>A session table in which session \<open>s1\<close> is in Clarifying with an active event.\<close>

definition example_sessions :: HILDStateMachine where
  "example_sessions =
     hild_init(''s1'' \<mapsto>
       \<lparr>status = \<lparr>session_id = ''s1'', state = Clarifying, active_event_id = Some ''e1'',
                  prompt = Some (make_prompt ''p1'' (example_detection True)),
                  last_transition_ms = Some 0\<rparr>,
        unanswered_retry = False\<rparr>)"

text \<open>A two-segment graph accessor whose state lookup raises for segment \<open>b\<close>, and builders on it.\<close>

definition example_segments :: "segment list" where
  "example_segments =
     [\<lparr>seg_id = ''a'', seg_attrs = [(''importance'', 1), (''confidence'', 1 / 2)]\<rparr>,
      \<lparr>seg_id = ''b'', seg_attrs = []\<rparr>]"

definition example_repo :: repo where
  "example_repo =
     \<lparr>top_segments = (\<lambda>limit. Inr (py_take limit example_segments)),
      get_segment_states =
        (\<lambda>sid limit. if sid = ''b'' then Inl AccessorError
                     else Inr [\<lparr>coherence = Some 1, potency = None\<rparr>]),
      get_graph =
        (\<lambda>level. Inr [(''a'', ''b'', \<lparr>strength = Some (6 / 10), confidence = Some (8 / 10)\<rparr>)])\<rparr>"

definition example_builder :: QMSBuilder where
  "example_builder =
     \<lparr>qb_repo = example_repo, weights = default_weights, include_state_metrics = True\<rparr>"

definition blank_repo :: repo where
  "blank_repo =
     \<lparr>top_segments = (\<lambda>limit. Inr (py_take limit [\<lparr>seg_id = ''c'', seg_attrs = []\<rparr>])),
      get_segment_states = (\<lambda>sid limit. Inr []),
      get_graph = (\<lambda>level. Inr [])\<rparr>"


definition example_hamiltonian :: HamiltonianBuilder where
  "example_hamiltonian = \<lparr>hb_repo = example_repo, diag_damping = 1 / 10\<rparr>"

definition example_prior :: QMSState where
  "example_prior =
     \<lparr>basis = [''a'', ''b''], amplitudes = [0, 1], qms_session_id = Some ''s1'',
      qms_t_rel_ms = Some 0, qms_norm = 1, meta = []\<rparr>"

definition empty_state :: QMSState where
  "empty_state =
     \<lparr>basis = [], amplitudes = [], qms_session_id = Some ''s1'',
      qms_t_rel_ms = Some 0, qms_norm = 0, meta = []\<rparr>"

text \<open>An event record and libraries whose sinks work or raise.\<close>

definition example_record :: RogueEventRecord where
  "example_record =
     \<lparr>rec_id = ''e1'', rec_session_id = ''s1'', rec_t_rel_ms = 1000,
      detection = example_detection True, rec_prompt_id = None\<rparr>"

definition failing_audit :: audit_store where
  "failing_audit =
     \<lparr>mkdir_raises = None, read_raises = None, write_raises = Some SinkError, audit_rows = None\<rparr>"

definition working_audit :: audit_store where
  "working_audit =
     \<lparr>mkdir_raises = None, read_raises = None, write_raises = None, audit_rows = None\<rparr>"

definition failing_library :: RogueVariableLibrary where
  "failing_library = \<lparr>rvl_repo = None, audit_path = failing_audit, in_memory = []\<rparr>"

definition working_library :: RogueVariableLibrary where
  "working_library = \<lparr>rvl_repo = None, audit_path = working_audit, in_memory = []\<rparr>"

definition failing_driver :: neo4j_driver where
  "failing_driver =
     \<lparr>open_session = None, run_write = (\<lambda>c. Some SinkError), run_events_query = (\<lambda>sid. Inr [])\<rparr>"

definition mirror_failing_library :: RogueVariableLibrary where
  "mirror_failing_library =
     \<lparr>rvl_repo = Some failing_driver, audit_path = working_audit, in_memory = []\<rparr>"

text \<open>
  A numpy that answers on the two matrices of the examples: the error operator of
  \<open>[1, 0]\<close> against \<open>[0, 1]\<close>, with its eigenvalues 0 and 2, and the zero matrix.
\<close>

definition example_eigh :: "complex list list \<Rightarrow> error + (real list \<times> complex list list)" where
  "example_eigh m =
     (if m = [[1, - 1], [- 1, 1]] then
        Inr ([0, 2],
             [[complex_of_real (sqrt 2 / 2), complex_of_real (sqrt 2 / 2)],
              [complex_of_real (sqrt 2 / 2), - complex_of_real (sqrt 2 / 2)]])
      else if m = [[0, 0], [0, 0]] then Inr ([0, 0], [[1, 0], [0, 1]])
      else Inl LinAlgError)"

definition example_numpy :: numpy where
  "example_numpy = \<lparr>eigh = example_eigh, argsort = argsort_stable\<rparr>"

definition example_observed :: QMSState where
  "example_observed =
     \<lparr>basis = [''a'', ''b''], amplitudes = [1, 0], qms_session_id = None,
      qms_t_rel_ms = None, qms_norm = 1, meta = []\<rparr>"

definition example_predicted :: QMSState where
  "example_predicted =
     \<lparr>basis = [''a'', ''b''], amplitudes = [0, 1], qms_session_id = None,
      qms_t_rel_ms = None, qms_norm = 1, meta = []\<rparr>"

text \<open>
  Managers and environments for the ticks of the examples: an accessor that raises on
  every call, a graph without edges, a prior state \<open>[0, 1]\<close> cached for session \<open>s1\<close>, an
  audit file whose write raises, an eigensolver that raises.
\<close>

definition raising_repo :: repo where
  "raising_repo =
     \<lparr>top_segments = (\<lambda>limit. Inl AccessorError),
      get_segment_states = (\<lambda>sid limit. Inl AccessorError),
      get_graph = (\<lambda>level. Inl AccessorError)\<rparr>"

definition blank_hamiltonian :: HamiltonianBuilder where
  "blank_hamiltonian = \<lparr>hb_repo = blank_repo, diag_damping = 1 / 10\<rparr>"

definition example_manager :: QRVManager where
  "example_manager =
     \<lparr>qms_builder = example_builder, hamiltonian = blank_hamiltonian,
      detector = default_detector, hild = hild_init, rvl = failing_library,
      rsl = \<lparr>noise = 0\<rparr>, qms_limit = 64,
      last_qms = [''s1'' \<mapsto> example_prior], bus = None\<rparr>"

definition accessor_failing_manager :: QRVManager where
  "accessor_failing_manager =
     example_manager\<lparr>qms_builder :=
       \<lparr>qb_repo = raising_repo, weights = default_weights, include_state_metrics = True\<rparr>\<rparr>"

definition graph_failing_manager :: QRVManager where
  "graph_failing_manager =
     example_manager\<lparr>hamiltonian := \<lparr>hb_repo = raising_repo, diag_damping = 1 / 10\<rparr>\<rparr>"

definition example_env :: tick_env where
  "example_env =
     \<lparr>env_numpy = example_numpy, event_uuid = ''e1'', prompt_uuid = ''p1'',
      env_gauss = (\<lambda>n. replicate n 0)\<rparr>"

definition solver_failing_env :: tick_env where
  "solver_failing_env =
     example_env\<lparr>env_numpy := \<lparr>eigh = (\<lambda>m. Inl LinAlgError), argsort = argsort_stable\<rparr>\<rparr>"



definition raising_hamiltonian :: HamiltonianBuilder where
  "raising_hamiltonian = \<lparr>hb_repo = raising_repo, diag_damping = 1 / 10\<rparr>"

definition down_driver :: neo4j_driver where
  "down_driver =
     \<lparr>open_session = Some SinkError, run_write = (\<lambda>c. Some SinkError),
      run_events_query = (\<lambda>sid. Inl SinkError)\<rparr>"

definition store_down_library :: RogueVariableLibrary where
  "store_down_library =
     \<lparr>rvl_repo = Some down_driver, audit_path = working_audit, in_memory = []\<rparr>"

section \<open>Properties\<close>

subsection \<open>HILD: the transitions of \<^verbatim>\<open>on_tick\<close>\<close>

lemma on_tick_trigger_from_rest:
  assumes "sessions sid = None \<or>
           (\<exists>s. sessions sid = Some s \<and> (state (status s) = Idle \<or> state (status s) = Resolved))"
    and "triggered det"
  shows "\<exists>new. on_tick uuid sessions sid t det
           = (new, sessions(sid \<mapsto> \<lparr>status = new, unanswered_retry = False\<rparr>))
         \<and> state new = Clarifying \<and> prompt new = Some (make_prompt uuid det)
         \<and> active_event_id new = event_id det"
  using assms by (auto simp: on_tick_def Let_def)

lemma on_tick_grace:
  assumes "sessions sid = Some s" "state (status s) = Clarifying" "\<not> unanswered_retry s"
    and "\<not> triggered det"
  shows "on_tick uuid sessions sid t det
           = (status s, sessions(sid \<mapsto> s\<lparr>unanswered_retry := True\<rparr>))"
  using assms by (simp add: on_tick_def Let_def)

lemma on_tick_passive:
  assumes "sessions sid = Some s" "state (status s) = Clarifying" "unanswered_retry s"
    and "\<not> triggered det"
  shows "\<exists>new. on_tick uuid sessions sid t det = (new, sessions(sid \<mapsto> s\<lparr>status := new\<rparr>))
          \<and> state new = PassiveSafe \<and> prompt new = prompt (status s)
          \<and> active_event_id new = active_event_id (status s)"
  using assms by (simp add: on_tick_def Let_def)

lemma on_tick_resolve:
  assumes "sessions sid = Some s" "state (status s) = PassiveSafe" "\<not> triggered det"
  shows "\<exists>new. on_tick uuid sessions sid t det = (new, sessions(sid \<mapsto> s\<lparr>status := new\<rparr>))
          \<and> state new = Resolved \<and> prompt new = None
          \<and> active_event_id new = active_event_id (status s)"
  using assms by (simp add: on_tick_def Let_def)

text \<open>
  C4. From a session that is absent or in Idle, four ticks with detections triggered,
  not triggered, not triggered, not triggered give: Clarifying with a prompt, Clarifying
  again (the grace tick), PassiveSafe, Resolved.
\<close>

theorem hild_scenario:
  assumes start: "sessions sid = None \<or> (\<exists>s. sessions sid = Some s \<and> state (status s) = Idle)"
    and d: "triggered d1" "\<not> triggered d2" "\<not> triggered d3" "\<not> triggered d4"
  shows "(let (r1, m1) = on_tick u1 sessions sid t1 d1;
              (r2, m2) = on_tick u2 m1 sid t2 d2;
              (r3, m3) = on_tick u3 m2 sid t3 d3;
              (r4, m4) = on_tick u4 m3 sid t4 d4
          in state r1 = Clarifying \<and> prompt r1 \<noteq> None
           \<and> state r2 = Clarifying
           \<and> state r3 = PassiveSafe
           \<and> state r4 = Resolved)"
proof -
  from start have "sessions sid = None \<or>
      (\<exists>s. sessions sid = Some s \<and> (state (status s) = Idle \<or> state (status s) = Resolved))"
    by blast
  from on_tick_trigger_from_rest[of sessions sid d1 u1 t1] this d(1)
  obtain r1 where 1: "on_tick u1 sessions sid t1 d1
        = (r1, sessions(sid \<mapsto> \<lparr>status = r1, unanswered_retry = False\<rparr>))"
     and r1: "state r1 = Clarifying" "prompt r1 = Some (make_prompt u1 d1)"
    by blast
  define m1 where "m1 = sessions(sid \<mapsto> \<lparr>status = r1, unanswered_retry = False\<rparr>)"
  define s1 where "s1 = \<lparr>status = r1, unanswered_retry = False\<rparr>"
  have m1: "m1 sid = Some s1" by (simp add: m1_def s1_def)
  have 2: "on_tick u2 m1 sid t2 d2 = (r1, m1(sid \<mapsto> s1\<lparr>unanswered_retry := True\<rparr>))"
    using on_tick_grace[of m1 sid s1 d2 u2 t2] m1 d(2) r1 by (simp add: s1_def)
  define s2 where "s2 = s1\<lparr>unanswered_retry := True\<rparr>"
  define m2 where "m2 = m1(sid \<mapsto> s2)"
  have m2: "m2 sid = Some s2" by (simp add: m2_def)
  have s2: "state (status s2) = Clarifying" "unanswered_retry s2"
    using r1 by (simp_all add: s2_def s1_def)
  from on_tick_passive[of m2 sid s2 d3 u3 t3] m2 s2 d(3)
  obtain r3 where 3: "on_tick u3 m2 sid t3 d3 = (r3, m2(sid \<mapsto> s2\<lparr>status := r3\<rparr>))"
    and r3: "state r3 = PassiveSafe" by blast
  define s3 where "s3 = s2\<lparr>status := r3\<rparr>"
  define m3 where "m3 = m2(sid \<mapsto> s3)"
  have m3: "m3 sid = Some s3" by (simp add: m3_def)
  have s3: "state (status s3) = PassiveSafe" using r3 by (simp add: s3_def)
  from on_tick_resolve[of m3 sid s3 d4 u4 t4] m3 s3 d(4)
  obtain r4 where 4: "on_tick u4 m3 sid t4 d4 = (r4, m3(sid \<mapsto> s3\<lparr>status := r4\<rparr>))"
    and r4: "state r4 = Resolved" by blast
  show ?thesis
    using 1 2 3 4 r1 r3 r4
    by (simp add: m1_def[symmetric] s2_def[symmetric] m2_def[symmetric] s3_def[symmetric]
          m3_def[symmetric])
qed

theorem hild_scenario_witness:
  "(let (r1, m1) = on_tick ''p1'' hild_init ''s1'' 0 (example_detection True);
        (r2, m2) = on_tick ''p2'' m1 ''s1'' 1000 (example_detection False);
        (r3, m3) = on_tick ''p3'' m2 ''s1'' 2000 (example_detection False);
        (r4, m4) = on_tick ''p4'' m3 ''s1'' 3000 (example_detection False)
    in state r1 = Clarifying \<and> prompt r1 \<noteq> None
     \<and> state r2 = Clarifying
     \<and> state r3 = PassiveSafe
     \<and> state r4 = Resolved)"
  using hild_scenario[of hild_init "''s1''" "example_detection True" "example_detection False"
        "example_detection False" "example_detection False"
        "''p1''" 0 "''p2''" 1000 "''p3''" 2000 "''p4''" 3000]
  by (simp add: hild_init_def example_detection_def)

subsection \<open>HILD: \<^verbatim>\<open>acknowledge\<close>\<close>

text \<open>
  C1, as stated, fails for a session id without state: \<^verbatim>\<open>acknowledge\<close> stores an Idle
  status for it and returns that status.
\<close>

theorem acknowledge_unknown_counterexample:
  "state (fst (acknowledge hild_init ''s1'' ''walking'' 1500)) = Idle
   \<and> state (fst (acknowledge hild_init ''s1'' ''walking'' 1500)) \<noteq> Resolved"
  by (simp add: acknowledge_def hild_init_def Let_def)

text \<open>
  C1, amended. For a session id that has a state, whatever that state is,
  \<^verbatim>\<open>acknowledge\<close> returns and stores a Resolved status that carries the prior
  \<^verbatim>\<open>active_event_id\<close> and has no prompt. For a session id without state it returns and
  stores an Idle status with no event id and no prompt.
\<close>

theorem acknowledge_known_resolves:
  "(\<forall>st. sessions sid = Some st \<longrightarrow>
      (let (r, m) = acknowledge sessions sid response t
       in state r = Resolved \<and> active_event_id r = active_event_id (status st)
        \<and> prompt r = None \<and> session_id r = sid \<and> last_transition_ms r = Some t
        \<and> m = sessions(sid \<mapsto> \<lparr>status = r, unanswered_retry = False\<rparr>)))
   \<and> (sessions sid = None \<longrightarrow>
      (let (r, m) = acknowledge sessions sid response t
       in state r = Idle \<and> active_event_id r = None
        \<and> prompt r = None \<and> session_id r = sid \<and> last_transition_ms r = Some t
        \<and> m = sessions(sid \<mapsto> \<lparr>status = r, unanswered_retry = False\<rparr>)))"
  by (simp add: acknowledge_def Let_def)

theorem acknowledge_known_resolves_witness:
  "(let (r, m) = acknowledge example_sessions ''s1'' ''walking'' 1500
    in state r = Resolved \<and> active_event_id r = Some ''e1'' \<and> prompt r = None)
   \<and> (let (r, m) = acknowledge hild_init ''s2'' ''walking'' 1500
      in state r = Idle \<and> active_event_id r = None \<and> prompt r = None)"
  using acknowledge_known_resolves[of example_sessions "''s1''" "''walking''" 1500]
        acknowledge_known_resolves[of hild_init "''s2''" "''walking''" 1500]
  by (simp add: example_sessions_def hild_init_def split: prod.splits)

subsection \<open>Norms, the QMS builder and the Hamiltonian builder\<close>

lemma sum_sq_nonneg: "0 \<le> (\<Sum>z\<leftarrow>v. (cmod z)\<^sup>2)"
  by (induction v) auto

lemma l2norm_nonneg: "0 \<le> l2norm v"
  by (simp add: l2norm_def sum_sq_nonneg)

lemma sum_sq_zero_iff: "(\<Sum>z\<leftarrow>v. (cmod z)\<^sup>2) = 0 \<longleftrightarrow> (\<forall>z \<in> set v. z = 0)"
proof (induction v)
  case Nil
  then show ?case by simp
next
  case (Cons a v)
  have "(cmod a)\<^sup>2 + (\<Sum>z\<leftarrow>v. (cmod z)\<^sup>2) = 0
        \<longleftrightarrow> (cmod a)\<^sup>2 = 0 \<and> (\<Sum>z\<leftarrow>v. (cmod z)\<^sup>2) = 0"
    using sum_sq_nonneg[of v] by (simp add: add_nonneg_eq_0_iff)
  with Cons show ?case by simp
qed

lemma l2norm_zero_iff: "l2norm v = 0 \<longleftrightarrow> (\<forall>z \<in> set v. z = 0)"
  by (simp add: l2norm_def sum_sq_zero_iff)





lemma build_from_segments_exact:
  "build_from_segments_np exact_arith qb sid t limit ovs = build_from_segments qb sid t limit ovs"
  by (simp add: build_from_segments_np_def build_from_segments_def exact_arith_def Let_def
        cong: if_cong)








lemma length_mat_add: "length (mat_add h i j v) = length h"
  by (simp add: mat_add_def)

lemma length_fold_edges:
  "length (fold (\<lambda>(u, v, data) h.
                   case idx u of None \<Rightarrow> h
                   | Some i \<Rightarrow> (case idx v of None \<Rightarrow> h | Some j \<Rightarrow> mat_add h i j (w data)))
                edges h0) = length h0"
  by (induction edges arbitrary: h0) (auto simp: length_mat_add split: option.splits)

lemma length_fold_diag:
  "length (fold (\<lambda>i h. mat_add h i i (g h i)) idxs h0) = length h0"
  by (induction idxs arbitrary: h0) (auto simp: length_mat_add)

lemma build_length:
  assumes "get_graph (hb_repo hb) level = Inr edges"
  shows "\<exists>h. build hb bs level = Inr h \<and> length h = length bs"
  using assms
  by (simp add: build_def bind_err_def Let_def length_fold_diag length_fold_edges)

text \<open>
  C9, as stated, fails: \<^verbatim>\<open>build\<close> calls \<^verbatim>\<open>get_graph\<close> outside any \<^verbatim>\<open>try\<close>, so with an
  accessor that raises, \<^verbatim>\<open>predict\<close> raises, for a prior state of matching lengths and a
  \<open>dt\<close> at the floor.
\<close>

theorem predict_failing_graph_counterexample:
  "length (amplitudes example_prior) = length (basis example_prior)
   \<and> predict raising_hamiltonian example_prior (1 / 1000) = Inl AccessorError"
  by (simp add: predict_def build_def bind_err_def raising_hamiltonian_def raising_repo_def
        example_prior_def)

text \<open>
  C9, amended. For a prior state with as many amplitudes as basis ids, and any \<open>dt\<close> (so also any
  \<open>dt\<close> at or above the floor), \<^verbatim>\<open>predict\<close> returns a state over the same basis with as
  many amplitudes as basis ids, provided the accessor's \<^verbatim>\<open>get_graph\<close> returns a graph. With
  an empty basis the Hamiltonian is the empty matrix, the predicted amplitudes are empty
  and the norm is 0.
\<close>

theorem predict_total:
  assumes "get_graph (hb_repo hb) 1 = Inr edges"
    and "length (amplitudes prev) = length (basis prev)"
  shows "\<exists>q. predict hb prev dt = Inr q
           \<and> basis q = basis prev
           \<and> length (amplitudes q) = length (basis q)
           \<and> (basis prev = [] \<longrightarrow>
                build hb (basis prev) 1 = Inr [] \<and> amplitudes q = [] \<and> qms_norm q = 0)"
proof -
  obtain h where h: "build hb (basis prev) 1 = Inr h" "length h = length (basis prev)"
    using build_length[OF assms(1)] by blast
  have mv: "matvec h (amplitudes prev) = Inr (map (\<lambda>row. \<Sum>(x, y)\<leftarrow>zip row (amplitudes prev). x * y) h)"
    using h(2) assms(2) by (simp add: matvec_def)
  show ?thesis
    using h mv assms(2)
    by (auto simp: predict_def bind_err_def Let_def l2norm_def)
qed


lemma example_raw: "raw_amplitudes example_builder example_segments None = [complex_of_real (27 / 40), 0]"
  by (simp add: raw_amplitudes_def amplitude_from_segment_def latest_state_def example_builder_def
        example_repo_def example_segments_def default_weights_def or_zero_def)







theorem predict_total_witness:
  "(\<exists>q. predict example_hamiltonian example_prior (1 / 1000) = Inr q
        \<and> basis q = [''a'', ''b''] \<and> length (amplitudes q) = 2)
   \<and> (\<exists>q. predict example_hamiltonian empty_state (1 / 1000) = Inr q
        \<and> build example_hamiltonian [] 1 = Inr [] \<and> amplitudes q = [] \<and> qms_norm q = 0)"
proof -
  have g: "get_graph (hb_repo example_hamiltonian) 1
             = Inr [(''a'', ''b'', \<lparr>strength = Some (6 / 10), confidence = Some (8 / 10)\<rparr>)]"
    by (simp add: example_hamiltonian_def example_repo_def)
  have l1: "length (amplitudes example_prior) = length (basis example_prior)"
    by (simp add: example_prior_def)
  have l2: "length (amplitudes empty_state) = length (basis empty_state)"
    by (simp add: empty_state_def)
  show ?thesis
    using predict_total[OF g l1, of "1 / 1000"] predict_total[OF g l2, of "1 / 1000"]
    by (auto simp: example_prior_def empty_state_def)
qed

subsection \<open>The rogue variable library\<close>

lemma write_audit_in_memory: "in_memory (snd (write_audit lib r)) = in_memory lib"
  by (simp add: write_audit_def Let_def split: option.splits sum.splits)

lemma write_audit_repo: "rvl_repo (snd (write_audit lib r)) = rvl_repo lib"
  by (simp add: write_audit_def Let_def split: option.splits sum.splits)

lemma record_event_in_memory: "in_memory (snd (record_event lib r)) = in_memory lib @ [r]"
  using write_audit_in_memory[of "lib\<lparr>in_memory := in_memory lib @ [r]\<rparr>" r]
  by (auto simp: record_event_def Let_def split: prod.splits sum.splits)

lemma record_event_repo: "rvl_repo (snd (record_event lib r)) = rvl_repo lib"
  using write_audit_repo[of "lib\<lparr>in_memory := in_memory lib @ [r]\<rparr>" r]
  by (auto simp: record_event_def Let_def split: prod.splits sum.splits)

text \<open>
  C2, as stated, fails: with an audit file whose write raises, \<^verbatim>\<open>record\<close> raises.
\<close>

theorem record_event_failing_sink_counterexample:
  "fst (record_event failing_library example_record) = Inl SinkError"
  by (simp add: record_event_def write_audit_def failing_library_def failing_audit_def Let_def)

text \<open>
  C2, amended. \<^verbatim>\<open>record\<close> does not catch the exception of a durable sink: an exception of
  \<^verbatim>\<open>mkdir\<close>, of reading the existing audit file or of writing it leaves \<^verbatim>\<open>record\<close>; when
  the audit write succeeds, \<^verbatim>\<open>record\<close> ends as the graph-store mirror does, which raises
  when opening the session or a write statement raises and returns at once for an
  in-memory repository.
\<close>

theorem record_event_propagates_sink_failure:
  "(mkdir_raises (audit_path lib) = Some e \<longrightarrow> fst (record_event lib r) = Inl e)
   \<and> (mkdir_raises (audit_path lib) = None \<and> audit_rows (audit_path lib) \<noteq> None
        \<and> read_raises (audit_path lib) = Some e \<longrightarrow> fst (record_event lib r) = Inl e)
   \<and> (mkdir_raises (audit_path lib) = None
        \<and> (audit_rows (audit_path lib) = None \<or> read_raises (audit_path lib) = None)
        \<and> write_raises (audit_path lib) = Some e \<longrightarrow> fst (record_event lib r) = Inl e)
   \<and> (mkdir_raises (audit_path lib) = None
        \<and> (audit_rows (audit_path lib) = None \<or> read_raises (audit_path lib) = None)
        \<and> write_raises (audit_path lib) = None
        \<longrightarrow> fst (record_event lib r) = persist_neo4j lib r)
   \<and> (\<forall>driver. rvl_repo lib = Some driver \<and> open_session driver = Some e
        \<longrightarrow> persist_neo4j lib r = Inl e)
   \<and> (\<forall>driver. rvl_repo lib = Some driver \<and> open_session driver = None
        \<and> run_write driver (MergeEvent (rec_id r)) = Some e
        \<longrightarrow> persist_neo4j lib r = Inl e)
   \<and> (rvl_repo lib = None \<longrightarrow> persist_neo4j lib r = Inr ())"
  by (auto simp: record_event_def write_audit_def persist_neo4j_def mirror_statements_def Let_def
      split: option.splits sum.splits)

theorem record_event_propagates_sink_failure_witness:
  "fst (record_event failing_library example_record) = Inl SinkError
   \<and> fst (record_event mirror_failing_library example_record) = Inl SinkError
   \<and> fst (record_event working_library example_record) = Inr ()"
  using record_event_propagates_sink_failure[of failing_library SinkError example_record]
        record_event_propagates_sink_failure[of mirror_failing_library SinkError example_record]
        record_event_propagates_sink_failure[of working_library SinkError example_record]
  by (simp add: failing_library_def mirror_failing_library_def working_library_def
        failing_audit_def working_audit_def failing_driver_def)

text \<open>
  C10, as stated, fails in its second half: when the graph store is down, the mirror
  write makes \<^verbatim>\<open>record\<close> raise, and the following \<^verbatim>\<open>list_events\<close> raises as well instead
  of returning the record.
\<close>

theorem record_event_store_down_counterexample:
  "fst (record_event store_down_library example_record) = Inl SinkError
   \<and> list_events (snd (record_event store_down_library example_record))
         (Some (rec_session_id example_record)) = Inl SinkError"
  by (simp add: record_event_def write_audit_def persist_neo4j_def list_events_def
        store_down_library_def working_audit_def down_driver_def Let_def)

text \<open>
  C10, amended. Whatever \<^verbatim>\<open>record\<close> does after the append (return, or raise because a
  sink raises), the library it leaves has the record at the end of the in-memory log.
  A following \<^verbatim>\<open>list_events(session_id=record.session_id)\<close> that returns, returns the
  record's dump; it returns for an in-memory repository and for a graph store whose
  session opens and whose event query returns, and it raises when the store's session
  or query raises.
\<close>

theorem record_event_appends_before_sinks:
  assumes "record_event lib r = (res, lib')"
  shows "in_memory lib' = in_memory lib @ [r]
         \<and> (\<forall>evs. list_events lib' (Some (rec_session_id r)) = Inr evs \<longrightarrow> Dumped r \<in> set evs)
         \<and> (rvl_repo lib = None
              \<longrightarrow> (\<exists>evs. list_events lib' (Some (rec_session_id r)) = Inr evs))
         \<and> (\<forall>driver rows. rvl_repo lib = Some driver \<and> open_session driver = None
                \<and> run_events_query driver (Some (rec_session_id r)) = Inr rows
              \<longrightarrow> (\<exists>evs. list_events lib' (Some (rec_session_id r)) = Inr evs))
         \<and> (\<forall>driver e. rvl_repo lib = Some driver
                \<and> (open_session driver = Some e
                    \<or> open_session driver = None
                      \<and> run_events_query driver (Some (rec_session_id r)) = Inl e)
              \<longrightarrow> list_events lib' (Some (rec_session_id r)) = Inl e)"
proof -
  have mem: "in_memory lib' = in_memory lib @ [r]"
    using record_event_in_memory[of lib r] assms by simp
  have rp: "rvl_repo lib' = rvl_repo lib"
    using record_event_repo[of lib r] assms by simp
  have 2: "\<forall>evs. list_events lib' (Some (rec_session_id r)) = Inr evs \<longrightarrow> Dumped r \<in> set evs"
    using mem by (auto simp: list_events_def Let_def bind_err_def split: option.splits sum.splits)
  have 3: "rvl_repo lib = None
              \<longrightarrow> (\<exists>evs. list_events lib' (Some (rec_session_id r)) = Inr evs)"
    using rp by (simp add: list_events_def Let_def)
  have 4: "\<forall>driver rows. rvl_repo lib = Some driver \<and> open_session driver = None
                \<and> run_events_query driver (Some (rec_session_id r)) = Inr rows
              \<longrightarrow> (\<exists>evs. list_events lib' (Some (rec_session_id r)) = Inr evs)"
    using rp by (simp add: list_events_def Let_def bind_err_def)
  have 5: "\<forall>driver e. rvl_repo lib = Some driver
                \<and> (open_session driver = Some e
                    \<or> open_session driver = None
                      \<and> run_events_query driver (Some (rec_session_id r)) = Inl e)
              \<longrightarrow> list_events lib' (Some (rec_session_id r)) = Inl e"
    using rp by (auto simp: list_events_def Let_def bind_err_def)
  from mem 2 3 4 5 show ?thesis by blast
qed

theorem record_event_appends_before_sinks_witness:
  "fst (record_event failing_library example_record) = Inl SinkError
   \<and> in_memory (snd (record_event failing_library example_record)) = [example_record]
   \<and> (\<exists>evs. list_events (snd (record_event failing_library example_record)) (Some ''s1'') = Inr evs
         \<and> Dumped example_record \<in> set evs)
   \<and> fst (record_event mirror_failing_library example_record) = Inl SinkError
   \<and> (\<exists>evs. list_events (snd (record_event mirror_failing_library example_record)) (Some ''s1'')
               = Inr evs \<and> Dumped example_record \<in> set evs)
   \<and> in_memory (snd (record_event store_down_library example_record)) = [example_record]
   \<and> list_events (snd (record_event store_down_library example_record)) (Some ''s1'')
         = Inl SinkError"
proof -
  have sid: "rec_session_id example_record = ''s1''"
    by (simp add: example_record_def)
  have h1: "record_event failing_library example_record
             = (fst (record_event failing_library example_record),
                snd (record_event failing_library example_record))"
    by simp
  have h2: "record_event mirror_failing_library example_record
             = (fst (record_event mirror_failing_library example_record),
                snd (record_event mirror_failing_library example_record))"
    by simp
  have h3: "record_event store_down_library example_record
             = (fst (record_event store_down_library example_record),
                snd (record_event store_down_library example_record))"
    by simp
  have f1: "fst (record_event failing_library example_record) = Inl SinkError"
    by (simp add: record_event_def write_audit_def failing_library_def failing_audit_def Let_def)
  have f2: "fst (record_event mirror_failing_library example_record) = Inl SinkError"
    by (simp add: record_event_def write_audit_def persist_neo4j_def mirror_statements_def
          mirror_failing_library_def working_audit_def failing_driver_def Let_def)
  have r1: "rvl_repo failing_library = None"
    by (simp add: failing_library_def)
  have r2: "rvl_repo mirror_failing_library = Some failing_driver
            \<and> open_session failing_driver = None
            \<and> run_events_query failing_driver (Some (rec_session_id example_record)) = Inr []"
    by (simp add: mirror_failing_library_def failing_driver_def)
  have r3: "rvl_repo store_down_library = Some down_driver
            \<and> open_session down_driver = Some SinkError"
    by (simp add: store_down_library_def down_driver_def)
  have m1: "in_memory failing_library = []" by (simp add: failing_library_def)
  have m3: "in_memory store_down_library = []" by (simp add: store_down_library_def)
  note t1 = record_event_appends_before_sinks[OF h1]
  note t2 = record_event_appends_before_sinks[OF h2]
  note t3 = record_event_appends_before_sinks[OF h3]
  have w1: "in_memory (snd (record_event failing_library example_record)) = [example_record]"
    using t1 m1 by simp
  have w2: "\<exists>evs. list_events (snd (record_event failing_library example_record)) (Some ''s1'') = Inr evs
         \<and> Dumped example_record \<in> set evs"
    using t1 r1 sid by metis
  have w3: "\<exists>evs. list_events (snd (record_event mirror_failing_library example_record)) (Some ''s1'')
               = Inr evs \<and> Dumped example_record \<in> set evs"
    using t2 r2 sid by metis
  have w4: "in_memory (snd (record_event store_down_library example_record)) = [example_record]"
    using t3 m3 by simp
  have w5: "list_events (snd (record_event store_down_library example_record)) (Some ''s1'')
         = Inl SinkError"
    using t3 r3 sid by metis
  from f1 f2 w1 w2 w3 w4 w5 show ?thesis by blast
qed

subsection \<open>The spectral detector\<close>

lemma np_sub_same_length: "length a = length b \<Longrightarrow> np_sub a b = Inr (map2 (-) a b)"
  by (simp add: np_sub_def)

lemma set_py_take: "set (py_take k xs) \<subseteq> set xs"
  by (auto simp: py_take_def dest: in_set_takeD)

lemma py_take_all: "int (length xs) \<le> k \<Longrightarrow> py_take k xs = xs"
  by (simp add: py_take_def)

lemma loads_of_ok:
  "\<forall>p \<in> set ps. fst p < length vec \<Longrightarrow> \<exists>r. loads_of vec ps acc = Inr r"
  by (induction vec ps acc rule: loads_of.induct) auto

lemma enumerate_fst: "p \<in> set (enumerate 0 bs) \<Longrightarrow> fst p < length bs"
  by (auto simp: in_set_enumerate_eq)

lemma pick_loaded_ok:
  "\<forall>i \<in> set idxs. i < length mags \<and> i < length bs \<Longrightarrow> \<exists>r. pick_loaded bs mags idxs = Inr r"
  by (induction idxs) (auto simp: bind_err_def)

lemma pick_loaded_all:
  "\<forall>i \<in> set idxs. i < length mags \<and> i < length bs \<and> 0 < mags ! i
   \<Longrightarrow> pick_loaded bs mags idxs = Inr (map ((!) bs) idxs)"
  by (induction idxs) (auto simp: bind_err_def)

lemma argsort_perm_set: "argsort_perm np \<Longrightarrow> set (argsort np xs) = {..<length xs}"
  by (simp add: argsort_perm_def)

lemma argsort_perm_length: "argsort_perm np \<Longrightarrow> length (argsort np xs) = length xs"
proof -
  assume a: "argsort_perm np"
  then have "distinct (argsort np xs)" "set (argsort np xs) = {..<length xs}"
    by (simp_all add: argsort_perm_def)
  then have "length (argsort np xs) = card {..<length xs}"
    using distinct_card by fastforce
  then show ?thesis by simp
qed

lemma top_loadings_ok:
  assumes "argsort_perm np" "length vec = length bs"
  shows "\<exists>t. top_loadings np det vec bs = Inr t"
proof -
  have "\<forall>i \<in> set (py_take (loading_top_k det) (rev (argsort np (map cmod vec)))).
          i < length (map cmod vec) \<and> i < length bs"
    using set_py_take[of "loading_top_k det" "rev (argsort np (map cmod vec))"]
          argsort_perm_set[OF assms(1), of "map cmod vec"] assms(2)
    by auto
  from pick_loaded_ok[OF this] show ?thesis
    by (simp add: top_loadings_def Let_def)
qed

lemma top_loadings_all:
  assumes "argsort_perm np" "length vec = length bs" "\<forall>z \<in> set vec. z \<noteq> 0"
    and "int (length bs) \<le> loading_top_k det"
  shows "\<exists>t. top_loadings np det vec bs = Inr t \<and> set t = set bs"
proof -
  let ?idx = "rev (argsort np (map cmod vec))"
  have len: "length ?idx = length bs"
    using argsort_perm_length[OF assms(1), of "map cmod vec"] assms(2) by simp
  have st: "set ?idx = {..<length bs}"
    using argsort_perm_set[OF assms(1), of "map cmod vec"] assms(2) by simp
  have tk: "py_take (loading_top_k det) ?idx = ?idx"
    using py_take_all[of ?idx "loading_top_k det"] len assms(4) by simp
  have "\<forall>i \<in> set ?idx. i < length (map cmod vec) \<and> i < length bs \<and> 0 < map cmod vec ! i"
    using st assms(2,3) by (auto simp: nth_mem)
  from pick_loaded_all[OF this]
  have "top_loadings np det vec bs = Inr (map ((!) bs) ?idx)"
    by (simp add: top_loadings_def Let_def tk)
  moreover have "set (map ((!) bs) ?idx) = set bs"
  proof -
    have "set (map ((!) bs) ?idx) = (!) bs ` {..<length bs}"
      using st by (simp only: set_map)
    also have "\<dots> = set bs"
      by (auto simp: set_conv_nth)
    finally show ?thesis .
  qed
  ultimately show ?thesis by simp
qed

lemma directions_loop_ok:
  assumes "argsort_perm np"
    and "\<forall>idx \<in> set idxs. idx < length eigvals \<and> idx < length eigvecs
            \<and> length (eigvecs ! idx) = length bs"
  shows "\<exists>dirs high. directions_loop np det bs eigvals eigvecs idxs = Inr (dirs, high)"
  using assms(2)
proof (induction idxs)
  case Nil
  then show ?case by simp
next
  case (Cons idx rest)
  then obtain dirs high where r: "directions_loop np det bs eigvals eigvecs rest = Inr (dirs, high)"
    by auto
  have len: "length (eigvecs ! idx) = length bs" "idx < length eigvals" "idx < length eigvecs"
    using Cons.prems by auto
  have "\<forall>p \<in> set (enumerate 0 bs). fst p < length (eigvecs ! idx)"
    using enumerate_fst len(1) by auto
  from loads_of_ok[OF this] obtain loads where
    l: "loads_of (eigvecs ! idx) (enumerate 0 bs) [] = Inr loads" by blast
  from top_loadings_ok[OF assms(1) len(1)] obtain t where
    t: "top_loadings np det (eigvecs ! idx) bs = Inr t" by blast
  show ?case
    using r l t len by (simp add: bind_err_def Let_def)
qed

lemma directions_loop_step:
  assumes "directions_loop np det bs eigvals eigvecs (idx # rest) = Inr (dirs, high)"
    and "top_loadings np det (eigvecs ! idx) bs = Inr t"
  shows "\<exists>dirs' high'. directions_loop np det bs eigvals eigvecs rest = Inr (dirs', high')
            \<and> high = t @ high'"
proof (cases "length eigvals \<le> idx \<or> length eigvecs \<le> idx")
  case True
  then show ?thesis using assms(1) by simp
next
  case False
  note nf = False
  show ?thesis
  proof (cases "loads_of (eigvecs ! idx) (enumerate 0 bs) []")
    case (Inl e)
    then show ?thesis using assms(1) nf by (simp add: bind_err_def)
  next
    case (Inr loads)
    note lo = Inr
    show ?thesis
    proof (cases "directions_loop np det bs eigvals eigvecs rest")
      case (Inl e)
      then show ?thesis using assms nf lo by (simp add: bind_err_def)
    next
      case (Inr p)
      obtain dirs' high' where p: "p = (dirs', high')" by (cases p)
      show ?thesis using assms nf lo Inr p by (simp add: bind_err_def)
    qed
  qed
qed

lemma directions_loop_high:
  assumes "directions_loop np det bs eigvals eigvecs idxs = Inr (dirs, high)"
    and "\<forall>idx \<in> set idxs. \<exists>t. top_loadings np det (eigvecs ! idx) bs = Inr t \<and> set t = S"
  shows "set high = (if idxs = [] then {} else S)"
  using assms
proof (induction idxs arbitrary: dirs high)
  case Nil
  then show ?case by simp
next
  case (Cons idx rest)
  from Cons.prems(2) obtain t where
    t: "top_loadings np det (eigvecs ! idx) bs = Inr t" "set t = S" by auto
  from directions_loop_step[OF Cons.prems(1) t(1)] obtain dirs' high' where
    r: "directions_loop np det bs eigvals eigvecs rest = Inr (dirs', high')"
    and h: "high = t @ high'"
    by blast
  have "set high' = (if rest = [] then {} else S)"
    using Cons.IH[OF r] Cons.prems(2) by simp
  then show ?case using h t(2) by auto
qed

lemma length_fold_zero:
  "length (fold (\<lambda>idx v. if idx < length v then v[idx := 0] else v) idxs v) = length v"
  by (induction idxs arbitrary: v) auto

lemma nth_fold_zero:
  "i < length v \<Longrightarrow>
   fold (\<lambda>idx v. if idx < length v then v[idx := (0::complex)] else v) idxs v ! i
     = (if i \<in> set idxs then 0 else v ! i)"
proof (induction idxs arbitrary: v)
  case Nil
  then show ?case by simp
next
  case (Cons a idxs)
  show ?case
  proof (cases "a < length v")
    case True
    have "fold (\<lambda>idx v. if idx < length v then v[idx := 0] else v) idxs (v[a := 0]) ! i
          = (if i \<in> set idxs then 0 else v[a := 0] ! i)"
      using Cons.IH[of "v[a := 0]"] Cons.prems by simp
    then show ?thesis using True Cons.prems by (auto simp: nth_list_update)
  next
    case False
    then show ?thesis using Cons.IH[of v] Cons.prems by auto
  qed
qed

lemma ablate_ok:
  assumes "length obs = length pred"
  shows "\<exists>e. ablate obs pred idxs = Inr e \<and> 0 \<le> e"
  using assms
  by (simp add: ablate_def Let_def bind_err_def np_sub_same_length length_fold_zero l2norm_nonneg)

lemma set_fromkeys: "set (fromkeys xs) = set xs"
  by (induction xs) auto

lemma detect_wellformed:
  assumes ne: "amplitudes obs \<noteq> []"
    and lp: "length (amplitudes pred) = length (amplitudes obs)"
    and lb: "length (basis obs) = length (amplitudes obs)"
    and ap: "argsort_perm np"
    and eg: "eigh np (outer (map2 (-) (amplitudes obs) (amplitudes pred))
                        (map cnj (map2 (-) (amplitudes obs) (amplitudes pred))))
               = Inr (eigvals, eigvecs)"
    and sh: "eigh_shape (length (amplitudes obs)) (eigvals, eigvecs)"
  shows "\<exists>dirs high e.
           directions_loop np det (basis obs) eigvals eigvecs
              (py_take (max_directions det) (rev (argsort np eigvals))) = Inr (dirs, high)
         \<and> ablate (amplitudes obs) (amplitudes pred)
              (map (list_index (basis obs))
                 (filter (\<lambda>seg. seg \<in> set (basis obs)) (fromkeys high))) = Inr e
         \<and> 0 \<le> e
         \<and> detect np det obs pred
             = Inr \<lparr>triggered =
                      (e - l2norm (map2 (-) (amplitudes obs) (amplitudes pred))
                         < - improvement_tolerance det),
                    error_norm = l2norm (map2 (-) (amplitudes obs) (amplitudes pred)),
                    ablation_improvement =
                      e - l2norm (map2 (-) (amplitudes obs) (amplitudes pred)),
                    rogue_directions =
                      map (\<lambda>rd. rd\<lparr>delta_error :=
                              e - l2norm (map2 (-) (amplitudes obs) (amplitudes pred))\<rparr>) dirs,
                    rogue_segments = fromkeys high,
                    event_id = None, pre_state = Some obs, post_state = Some pred\<rparr>"
proof -
  let ?idxs = "py_take (max_directions det) (rev (argsort np eigvals))"
  have n: "length eigvals = length (amplitudes obs)" "length eigvecs = length (amplitudes obs)"
    and cols: "\<forall>c \<in> set eigvecs. length c = length (amplitudes obs)"
    using sh by (simp_all add: eigh_shape_def)
  have "\<forall>idx \<in> set ?idxs. idx < length eigvals \<and> idx < length eigvecs
            \<and> length (eigvecs ! idx) = length (basis obs)"
    using set_py_take[of "max_directions det" "rev (argsort np eigvals)"]
          argsort_perm_set[OF ap, of eigvals] n cols lb
    by (auto simp: subset_iff)
  from directions_loop_ok[OF ap this, of det] obtain dirs high where
    dl: "directions_loop np det (basis obs) eigvals eigvecs ?idxs = Inr (dirs, high)" by blast
  from ablate_ok[of "amplitudes obs" "amplitudes pred"] lp obtain e where
    e: "ablate (amplitudes obs) (amplitudes pred)
          (map (list_index (basis obs))
             (filter (\<lambda>seg. seg \<in> set (basis obs)) (fromkeys high))) = Inr e" "0 \<le> e"
    by metis
  have "detect np det obs pred
             = Inr \<lparr>triggered =
                      (e - l2norm (map2 (-) (amplitudes obs) (amplitudes pred))
                         < - improvement_tolerance det),
                    error_norm = l2norm (map2 (-) (amplitudes obs) (amplitudes pred)),
                    ablation_improvement =
                      e - l2norm (map2 (-) (amplitudes obs) (amplitudes pred)),
                    rogue_directions =
                      map (\<lambda>rd. rd\<lparr>delta_error :=
                              e - l2norm (map2 (-) (amplitudes obs) (amplitudes pred))\<rparr>) dirs,
                    rogue_segments = fromkeys high,
                    event_id = None, pre_state = Some obs, post_state = Some pred\<rparr>"
    using ne lp eg dl e(1)
    by (simp add: detect_def Let_def bind_err_def error_operator_def np_sub_same_length)
  with dl e show ?thesis by blast
qed


lemma map2_sub_self: "map2 (-) a a = replicate (length a) (0::complex)"
  by (induction a) auto

lemma error_operator_self:
  "outer (map2 (-) a a) (map cnj (map2 (-) a a)) = replicate (length a) (replicate (length a) 0)"
  by (simp add: map2_sub_self outer_def map_replicate_const)

lemma l2norm_replicate_zero: "l2norm (replicate n 0) = 0"
  by (simp add: l2norm_zero_iff)

text \<open>
  C6. For a state \<open>x\<close> with at least one amplitude and as many basis ids as amplitudes,
  \<^verbatim>\<open>detect(x, x)\<close> returns a result with \<^verbatim>\<open>error_norm\<close> 0 that is not triggered: the
  improvement is the ablated error, a norm, so it is never below minus the (non-negative)
  tolerance. numpy enters through two facts: \<^verbatim>\<open>argsort\<close> yields a permutation of the
  indices, and \<^verbatim>\<open>eigh\<close> returns, with the right shape, on the zero matrix.
\<close>

theorem detect_same_state:
  assumes "amplitudes x \<noteq> []"
    and "length (basis x) = length (amplitudes x)"
    and "argsort_perm np"
    and "eigh_returns np (replicate (length (amplitudes x)) (replicate (length (amplitudes x)) 0))"
    and "0 \<le> improvement_tolerance det"
  shows "\<exists>res. detect np det x x = Inr res \<and> error_norm res = 0 \<and> \<not> triggered res"
proof -
  from assms(4) obtain r where
    r: "eigh np (replicate (length (amplitudes x)) (replicate (length (amplitudes x)) 0)) = Inr r"
       "eigh_shape (length (amplitudes x)) r"
    unfolding eigh_returns_def by auto
  obtain eigvals eigvecs where p: "r = (eigvals, eigvecs)" by (cases r)
  have eg: "eigh np (outer (map2 (-) (amplitudes x) (amplitudes x))
                    (map cnj (map2 (-) (amplitudes x) (amplitudes x)))) = Inr (eigvals, eigvecs)"
    using r(1) p by (simp only: error_operator_self)
  have sh: "eigh_shape (length (amplitudes x)) (eigvals, eigvecs)"
    using r(2) p by simp
  have z: "l2norm (map2 (-) (amplitudes x) (amplitudes x)) = 0"
    by (simp only: map2_sub_self l2norm_replicate_zero)
  from detect_wellformed[OF assms(1) refl assms(2) assms(3) eg sh, of det]
  obtain dirs high e where
    e: "0 \<le> e"
    and d: "detect np det x x
             = Inr \<lparr>triggered =
                      (e - l2norm (map2 (-) (amplitudes x) (amplitudes x))
                         < - improvement_tolerance det),
                    error_norm = l2norm (map2 (-) (amplitudes x) (amplitudes x)),
                    ablation_improvement =
                      e - l2norm (map2 (-) (amplitudes x) (amplitudes x)),
                    rogue_directions =
                      map (\<lambda>rd. rd\<lparr>delta_error :=
                              e - l2norm (map2 (-) (amplitudes x) (amplitudes x))\<rparr>) dirs,
                    rogue_segments = fromkeys high,
                    event_id = None, pre_state = Some x, post_state = Some x\<rparr>"
    by blast
  show ?thesis
    using d e assms(5) by (simp add: z)
qed

lemma argsort_stable_perm: "argsort_perm example_numpy"
  by (auto simp: argsort_perm_def example_numpy_def argsort_stable_def)

theorem detect_same_state_witness:
  "\<exists>res. detect example_numpy default_detector example_observed example_observed = Inr res
      \<and> error_norm res = 0 \<and> \<not> triggered res"
proof -
  have 1: "amplitudes example_observed \<noteq> []"
    by (simp add: example_observed_def)
  have 2: "length (basis example_observed) = length (amplitudes example_observed)"
    by (simp add: example_observed_def)
  have 4: "eigh_returns example_numpy
             (replicate (length (amplitudes example_observed))
                (replicate (length (amplitudes example_observed)) 0))"
    by (simp add: eigh_returns_def example_numpy_def example_eigh_def example_observed_def
          eigh_shape_def numeral_2_eq_2)
  have 5: "0 \<le> improvement_tolerance default_detector"
    by (simp add: default_detector_def)
  show ?thesis
    using detect_same_state[OF 1 2 argsort_stable_perm 4 5] .
qed

lemma l2norm_pair_ge: "cmod a \<le> l2norm [a, b]" "cmod b \<le> l2norm [a, b]"
  by (simp_all add: l2norm_def real_sqrt_sum_squares_ge1 real_sqrt_sum_squares_ge2)

lemma eigvec_nonzero:
  assumes "length v = 2" "eps < 1 / 2"
    and "\<bar>l2norm v - 1\<bar> \<le> eps"
    and "residual [[1, - 1], [- 1, 1]] lam v \<le> eps"
  shows "\<forall>z \<in> set v. z \<noteq> 0"
proof -
  from assms(1) obtain x y where v: "v = [x, y]"
    by (cases v; cases "tl v") auto
  have "x \<noteq> 0"
  proof
    assume x: "x = 0"
    have "cmod y \<le> l2norm [- y, y - complex_of_real lam * y]"
      using l2norm_pair_ge(1)[of "- y" "y - complex_of_real lam * y"] by simp
    moreover have "residual [[1, - 1], [- 1, 1]] lam [0, y]
                     = l2norm [- y, y - complex_of_real lam * y]"
      by (simp add: residual_def)
    ultimately have "cmod y \<le> eps"
      using assms(4) by (simp add: v x)
    moreover have "l2norm [0, y] = cmod y"
      by (simp add: l2norm_def)
    then have "1 - eps \<le> cmod y"
      using assms(3) by (simp add: v x)
    ultimately show False using assms(2) by simp
  qed
  moreover have "y \<noteq> 0"
  proof
    assume y: "y = 0"
    have "cmod x \<le> l2norm [x - complex_of_real lam * x, - x]"
      using l2norm_pair_ge(2)[of "- x" "x - complex_of_real lam * x"] by simp
    moreover have "residual [[1, - 1], [- 1, 1]] lam [x, 0]
                     = l2norm [x - complex_of_real lam * x, - x]"
      by (simp add: residual_def)
    ultimately have "cmod x \<le> eps"
      using assms(4) by (simp add: v y)
    moreover have "l2norm [x, 0] = cmod x"
      by (simp add: l2norm_def)
    then have "1 - eps \<le> cmod x"
      using assms(3) by (simp add: v y)
    ultimately show False using assms(2) by simp
  qed
  ultimately show ?thesis by (simp add: v)
qed

lemma sqrt2_gap: "1 - sqrt 2 < - (1 / 1000000)"
proof -
  have "(1 + 1 / 1000000)\<^sup>2 < (2::real)" by (simp add: power2_eq_square)
  then have "1 + 1 / 1000000 < sqrt 2" by (rule real_less_rsqrt)
  then show ?thesis by simp
qed

lemma ablate_pair:
  assumes "set idxs = {0, 1}"
  shows "ablate [1, 0] [0, 1] idxs = Inr 1"
proof -
  let ?h = "fold (\<lambda>idx v. if idx < length v then v[idx := 0] else v) idxs [1, 0::complex]"
  have len: "length ?h = 2"
    by (simp add: length_fold_zero)
  have "?h ! 0 = 0" "?h ! 1 = 0"
    using nth_fold_zero[of 0 "[1, 0]" idxs] nth_fold_zero[of 1 "[1, 0]" idxs] assms
    by simp_all
  with len have h: "?h = [0, 0]"
    by (cases ?h; cases "tl ?h") auto
  show ?thesis
    by (simp add: ablate_def Let_def h l2norm_def np_sub_def bind_err_def)
qed

lemma list_index_pair: "list_index [''a'', ''b''] ` {''a'', ''b''} = {0, 1}"
  by auto

text \<open>
  The detection on \<open>[1, 0]\<close> against \<open>[0, 1]\<close>, for any admissible numpy: the fact behind
  C5, also used for the tick of the manager that records a detection.
\<close>

lemma detect_pair_triggered:
  assumes bo: "basis observed = [''a'', ''b'']" and ao: "amplitudes observed = [1, 0]"
    and bp: "basis predicted = [''a'', ''b'']" and apr: "amplitudes predicted = [0, 1]"
    and ap: "argsort_perm np"
    and eg: "eigh np [[1, - 1], [- 1, 1]] = Inr r"
    and eps: "eps < 1 / 2"
    and so: "eigh_approx eps [[1, - 1], [- 1, 1]] r"
  shows "\<exists>res. detect np default_detector observed predicted = Inr res
           \<and> triggered res \<and> ''a'' \<in> set (rogue_segments res)"
proof -
  obtain eigvals eigvecs where r: "r = (eigvals, eigvecs)" by (cases r)
  have delta: "map2 (-) (amplitudes observed) (amplitudes predicted) = [1, - 1]"
    by (simp add: ao apr)
  have oe: "outer (map2 (-) (amplitudes observed) (amplitudes predicted))
              (map cnj (map2 (-) (amplitudes observed) (amplitudes predicted)))
            = [[1, - 1], [- 1, 1]]"
    by (simp only: delta) (simp add: outer_def)
  have eg': "eigh np (outer (map2 (-) (amplitudes observed) (amplitudes predicted))
              (map cnj (map2 (-) (amplitudes observed) (amplitudes predicted))))
            = Inr (eigvals, eigvecs)"
    using eg r by (simp only: oe)
  have sh: "eigh_shape (length (amplitudes observed)) (eigvals, eigvecs)"
    using so r by (simp add: eigh_approx_def ao)
  have len: "length eigvals = 2" "length eigvecs = 2" "\<forall>c \<in> set eigvecs. length c = 2"
    using sh by (simp_all add: eigh_shape_def ao)
  have ne: "amplitudes observed \<noteq> []" by (simp add: ao)
  have lp: "length (amplitudes predicted) = length (amplitudes observed)" by (simp add: ao apr)
  have lb: "length (basis observed) = length (amplitudes observed)" by (simp add: ao bo)
  let ?idxs = "py_take (max_directions default_detector) (rev (argsort np eigvals))"
  from detect_wellformed[OF ne lp lb ap eg' sh, of default_detector]
  obtain dirs high e where
    dl: "directions_loop np default_detector (basis observed) eigvals eigvecs ?idxs
           = Inr (dirs, high)"
    and ab: "ablate (amplitudes observed) (amplitudes predicted)
              (map (list_index (basis observed))
                 (filter (\<lambda>seg. seg \<in> set (basis observed)) (fromkeys high))) = Inr e"
    and d: "detect np default_detector observed predicted
             = Inr \<lparr>triggered =
                      (e - l2norm (map2 (-) (amplitudes observed) (amplitudes predicted))
                         < - improvement_tolerance default_detector),
                    error_norm = l2norm (map2 (-) (amplitudes observed) (amplitudes predicted)),
                    ablation_improvement =
                      e - l2norm (map2 (-) (amplitudes observed) (amplitudes predicted)),
                    rogue_directions =
                      map (\<lambda>rd. rd\<lparr>delta_error :=
                        e - l2norm (map2 (-) (amplitudes observed) (amplitudes predicted))\<rparr>) dirs,
                    rogue_segments = fromkeys high,
                    event_id = None, pre_state = Some observed, post_state = Some predicted\<rparr>"
    by blast
  have idxs: "?idxs = rev (argsort np eigvals)"
    using argsort_perm_length[OF ap, of eigvals] len(1)
    by (simp add: py_take_def default_detector_def)
  have idxs_set: "set ?idxs = {..<2}"
    using argsort_perm_set[OF ap, of eigvals] len(1) by (simp add: idxs)
  have "length ?idxs = 2"
    using argsort_perm_length[OF ap, of eigvals] len(1) by (simp add: idxs)
  then have idxs_ne: "?idxs \<noteq> []"
    by (cases ?idxs) simp_all
  have tops: "\<forall>idx \<in> set ?idxs. \<exists>t. top_loadings np default_detector (eigvecs ! idx) (basis observed) = Inr t
                 \<and> set t = set (basis observed)"
  proof
    fix idx assume "idx \<in> set ?idxs"
    then have k: "idx < 2" using idxs_set by simp
    then have l2: "length (eigvecs ! idx) = 2"
      using len(2,3) by (simp add: nth_mem)
    have "\<bar>l2norm (eigvecs ! idx) - 1\<bar> \<le> eps"
      and "residual [[1, - 1], [- 1, 1]] (eigvals ! idx) (eigvecs ! idx) \<le> eps"
      using so r k by (simp_all add: eigh_approx_def)
    from eigvec_nonzero[OF l2 eps this] have nz: "\<forall>z \<in> set (eigvecs ! idx). z \<noteq> 0" .
    have l3: "length (eigvecs ! idx) = length (basis observed)" using l2 bo by simp
    have k5: "int (length (basis observed)) \<le> loading_top_k default_detector"
      by (simp add: bo default_detector_def)
    from top_loadings_all[OF ap l3 nz k5]
    show "\<exists>t. top_loadings np default_detector (eigvecs ! idx) (basis observed) = Inr t
                 \<and> set t = set (basis observed)" .
  qed
  have high: "set high = {''a'', ''b''}"
    using directions_loop_high[OF dl tops] idxs_ne bo by simp
  have uh: "set (fromkeys high) = {''a'', ''b''}"
    by (simp add: set_fromkeys high)
  have flt: "filter (\<lambda>seg. seg \<in> set (basis observed)) (fromkeys high) = fromkeys high"
    using uh bo by (simp add: filter_id_conv)
  have "set (map (list_index (basis observed)) (fromkeys high)) = {0, 1}"
    using list_index_pair uh by (simp add: bo)
  from ablate_pair[OF this] ab have e: "e = 1"
    by (simp add: flt ao apr)
  have en: "l2norm (map2 (-) (amplitudes observed) (amplitudes predicted)) = sqrt 2"
    by (simp only: delta) (simp add: l2norm_def)
  have "triggered \<lparr>triggered =
                      (e - l2norm (map2 (-) (amplitudes observed) (amplitudes predicted))
                         < - improvement_tolerance default_detector),
                    error_norm = l2norm (map2 (-) (amplitudes observed) (amplitudes predicted)),
                    ablation_improvement =
                      e - l2norm (map2 (-) (amplitudes observed) (amplitudes predicted)),
                    rogue_directions =
                      map (\<lambda>rd. rd\<lparr>delta_error :=
                        e - l2norm (map2 (-) (amplitudes observed) (amplitudes predicted))\<rparr>) dirs,
                    rogue_segments = fromkeys high,
                    event_id = None, pre_state = Some observed, post_state = Some predicted\<rparr>"
    using sqrt2_gap by (simp add: e en default_detector_def)
  then show ?thesis
    using d uh by auto
qed

text \<open>
  C5. Observed amplitudes \<open>[1, 0]\<close> and predicted amplitudes \<open>[0, 1]\<close> over the basis
  \<open>a, b\<close>, default configuration: the detection is triggered and \<open>a\<close> is a rogue segment.
  The error operator is \<open>[[1, -1], [-1, 1]]\<close>. Whatever \<^verbatim>\<open>eigh\<close> returns for it with an
  accuracy better than 1/2, each column has two non-zero components, so every direction
  loads on both segments;
  both amplitudes are ablated, the ablated error is 1 and the error norm is \<open>sqrt 2\<close>.
\<close>

theorem detect_orthogonal_pair:
  assumes "basis observed = [''a'', ''b'']" and "amplitudes observed = [1, 0]"
    and "basis predicted = [''a'', ''b'']" and "amplitudes predicted = [0, 1]"
    and "argsort_perm np"
    and "eigh np [[1, - 1], [- 1, 1]] = Inr r"
    and "eps < 1 / 2"
    and "eigh_approx eps [[1, - 1], [- 1, 1]] r"
  shows "\<exists>res. detect np default_detector observed predicted = Inr res
           \<and> triggered res \<and> ''a'' \<in> set (rogue_segments res)"
  using assms by (rule detect_pair_triggered)

lemma example_eigh_approx:
  "eigh_approx 0 [[1, - 1], [- 1, 1]]
     ([0, 2],
      [[complex_of_real (sqrt 2 / 2), complex_of_real (sqrt 2 / 2)],
       [complex_of_real (sqrt 2 / 2), - complex_of_real (sqrt 2 / 2)]])"
proof -
  let ?v1 = "[complex_of_real (sqrt 2 / 2), complex_of_real (sqrt 2 / 2)]"
  let ?v2 = "[complex_of_real (sqrt 2 / 2), - complex_of_real (sqrt 2 / 2)]"
  have n1: "l2norm ?v1 = 1"
    by (simp add: l2norm_def norm_divide power_divide)
  have n2: "l2norm ?v2 = 1"
    by (simp add: l2norm_def norm_divide power_divide)
  have m1: "residual [[1, - 1], [- 1, 1]] 0 ?v1 = 0"
    by (simp add: residual_def l2norm_def)
  have m2: "residual [[1, - 1], [- 1, 1]] 2 ?v2 = 0"
    by (simp add: residual_def l2norm_def)
  have sh: "eigh_shape (length [[1, - 1], [- 1, 1::complex]]) ([0, 2], [?v1, ?v2])"
    by (simp add: eigh_shape_def)
  have "\<bar>l2norm (snd ([0, 2::real], [?v1, ?v2]) ! k) - 1\<bar> \<le> 0 \<and>
        residual [[1, - 1], [- 1, 1]] (fst ([0, 2::real], [?v1, ?v2]) ! k)
          (snd ([0, 2::real], [?v1, ?v2]) ! k) \<le> 0"
    if "k < length [[1, - 1], [- 1, 1::complex]]" for k
  proof -
    from that have "k = 0 \<or> k = 1" by auto
    then show ?thesis
    proof
      assume "k = 0"
      then show ?thesis using n1 m1 by simp
    next
      assume "k = 1"
      then show ?thesis using n2 m2 by simp
    qed
  qed
  with sh show ?thesis
    unfolding eigh_approx_def by blast
qed

theorem detect_orthogonal_pair_witness:
  "\<exists>res. detect example_numpy default_detector example_observed example_predicted = Inr res
      \<and> triggered res \<and> ''a'' \<in> set (rogue_segments res)"
proof -
  have eg: "eigh example_numpy [[1, - 1], [- 1, 1]]
              = Inr ([0, 2],
                     [[complex_of_real (sqrt 2 / 2), complex_of_real (sqrt 2 / 2)],
                      [complex_of_real (sqrt 2 / 2), - complex_of_real (sqrt 2 / 2)]])"
    by (simp add: example_numpy_def example_eigh_def)
  have b1: "basis example_observed = [''a'', ''b'']" and a1: "amplitudes example_observed = [1, 0]"
    by (simp_all add: example_observed_def)
  have b2: "basis example_predicted = [''a'', ''b'']" and a2: "amplitudes example_predicted = [0, 1]"
    by (simp_all add: example_predicted_def)
  show ?thesis
    using detect_orthogonal_pair[OF b1 a1 b2 a2 argsort_stable_perm eg _ example_eigh_approx]
    by simp
qed

subsection \<open>The manager\<close>

lemma l2norm_real_zero: "l2norm [complex_of_real x, 0] = \<bar>x\<bar>"
  by (simp add: l2norm_def)

lemma example_observed_built:
  "build_from_segments example_builder ''s1'' 1000 64 None
     = Inr \<lparr>basis = [''a'', ''b''], amplitudes = [1, 0], qms_session_id = Some ''s1'',
            qms_t_rel_ms = Some 1000, qms_norm = 27 / 40, meta = []\<rparr>"
proof -
  have ts: "top_segments (qb_repo example_builder) 64 = Inr example_segments"
    by (simp add: example_builder_def example_repo_def example_segments_def py_take_def)
  have n: "l2norm [27 / 40, 0] = 27 / 40"
    using l2norm_real_zero[of "27 / 40"] by simp
  show ?thesis
    by (simp add: build_from_segments_def bind_err_def ts Let_def n example_raw)
       (simp add: example_segments_def)
qed

lemma example_predicted_stays:
  "predict blank_hamiltonian example_prior dt
     = Inr \<lparr>basis = [''a'', ''b''], amplitudes = [0, 1], qms_session_id = Some ''s1'',
            qms_t_rel_ms = Some 0, qms_norm = 1, meta = [(''predicted_from'', Some 0)]\<rparr>"
proof -
  have b: "build blank_hamiltonian [''a'', ''b''] 1 = Inr [[0, 0], [0, 0]]"
    by (simp add: build_def bind_err_def blank_hamiltonian_def blank_repo_def Let_def
          mat_add_def numeral_2_eq_2)
  show ?thesis
    by (simp add: predict_def example_prior_def b bind_err_def matvec_def Let_def l2norm_def)
qed


lemma detect_eigh_raises:
  assumes "amplitudes obs \<noteq> []"
    and "length (amplitudes pred) = length (amplitudes obs)"
    and "eigh np (outer (map2 (-) (amplitudes obs) (amplitudes pred))
                    (map cnj (map2 (-) (amplitudes obs) (amplitudes pred)))) = Inl e"
  shows "detect np det obs pred = Inl e"
  using assms
  by (simp add: detect_def Let_def bind_err_def error_operator_def np_sub_same_length)

lemma predict_graph_raises:
  "get_graph (hb_repo hb) 1 = Inl e \<Longrightarrow> predict hb prev dt = Inl e"
  by (simp add: predict_def build_def bind_err_def Let_def)

lemma build_accessor_raises:
  "top_segments (qb_repo qb) limit = Inl e \<Longrightarrow> build_from_segments qb sid t limit ovs = Inl e"
  by (simp add: build_from_segments_def bind_err_def)

lemma record_detection_sink_raises:
  assumes "triggered det0"
    and "fst (record_event (rvl mgr)
                \<lparr>rec_id = event_uuid env, rec_session_id = sid, rec_t_rel_ms = t,
                 detection = det0\<lparr>event_id := Some (event_uuid env)\<rparr>,
                 rec_prompt_id = None\<rparr>) = Inl e"
  shows "fst (record_detection env mgr sid t det0) = Inl e"
  using assms
  by (cases "record_event (rvl mgr)
                \<lparr>rec_id = event_uuid env, rec_session_id = sid, rec_t_rel_ms = t,
                 detection = det0\<lparr>event_id := Some (event_uuid env)\<rparr>,
                 rec_prompt_id = None\<rparr>")
     (simp add: record_detection_def Let_def)

text \<open>
  C3, as stated, fails: when \<^verbatim>\<open>top_segments\<close> raises, the exception leaves
  \<^verbatim>\<open>process_tick\<close>; no result, of an error kind or any other, is returned.
\<close>

theorem process_tick_failing_accessor_counterexample:
  "fst (process_tick example_env accessor_failing_manager ''s1'' 1000 None) = Inl AccessorError"
  by (simp add: process_tick_def build_from_segments_def bind_err_def
        accessor_failing_manager_def example_manager_def raising_repo_def)

text \<open>
  C3, amended. \<^verbatim>\<open>process_tick\<close> has no handler: an exception raised by
  \<^verbatim>\<open>top_segments\<close>, by \<^verbatim>\<open>get_graph\<close>, by the eigensolver (on a non-empty observation of
  the predicted length) or, on a triggered detection, by \<^verbatim>\<open>rvl.record\<close> (a durable sink)
  leaves \<^verbatim>\<open>process_tick\<close> unchanged. In the first three cases the manager is as before
  the call.
\<close>

theorem process_tick_propagates:
  "(\<forall>e. top_segments (qb_repo (qms_builder mgr)) (qms_limit mgr) = Inl e
        \<longrightarrow> process_tick env mgr sid t ovs = (Inl e, mgr))
   \<and> (\<forall>e obs. build_from_segments (qms_builder mgr) sid t (qms_limit mgr) ovs = Inr obs
          \<and> get_graph (hb_repo (hamiltonian mgr)) 1 = Inl e
        \<longrightarrow> process_tick env mgr sid t ovs = (Inl e, mgr))
   \<and> (\<forall>e obs pred.
          build_from_segments (qms_builder mgr) sid t (qms_limit mgr) ovs = Inr obs
          \<and> predict (hamiltonian mgr) (prior_state mgr sid obs)
                (elapsed_dt t (prior_state mgr sid obs)) = Inr pred
          \<and> amplitudes obs \<noteq> []
          \<and> length (amplitudes pred) = length (amplitudes obs)
          \<and> eigh (env_numpy env)
                (outer (map2 (-) (amplitudes obs) (amplitudes pred))
                   (map cnj (map2 (-) (amplitudes obs) (amplitudes pred)))) = Inl e
        \<longrightarrow> process_tick env mgr sid t ovs = (Inl e, mgr))
   \<and> (\<forall>e obs pred det0.
          build_from_segments (qms_builder mgr) sid t (qms_limit mgr) ovs = Inr obs
          \<and> predict (hamiltonian mgr) (prior_state mgr sid obs)
                (elapsed_dt t (prior_state mgr sid obs)) = Inr pred
          \<and> detect (env_numpy env) (detector mgr) obs pred = Inr det0
          \<and> triggered det0
          \<and> fst (record_event (rvl mgr)
                   \<lparr>rec_id = event_uuid env, rec_session_id = sid, rec_t_rel_ms = t,
                    detection = det0\<lparr>event_id := Some (event_uuid env)\<rparr>,
                    rec_prompt_id = None\<rparr>) = Inl e
        \<longrightarrow> fst (process_tick env mgr sid t ovs) = Inl e)"
proof (intro conjI allI impI)
  fix e assume "top_segments (qb_repo (qms_builder mgr)) (qms_limit mgr) = Inl e"
  from build_accessor_raises[OF this]
  show "process_tick env mgr sid t ovs = (Inl e, mgr)"
    by (simp add: process_tick_def)
next
  fix e obs
  assume a: "build_from_segments (qms_builder mgr) sid t (qms_limit mgr) ovs = Inr obs
          \<and> get_graph (hb_repo (hamiltonian mgr)) 1 = Inl e"
  then have "predict (hamiltonian mgr) (prior_state mgr sid obs)
               (elapsed_dt t (prior_state mgr sid obs)) = Inl e"
    by (simp add: predict_graph_raises)
  with a show "process_tick env mgr sid t ovs = (Inl e, mgr)"
    by (simp add: process_tick_def Let_def)
next
  fix e obs pred
  assume a: "build_from_segments (qms_builder mgr) sid t (qms_limit mgr) ovs = Inr obs
          \<and> predict (hamiltonian mgr) (prior_state mgr sid obs)
                (elapsed_dt t (prior_state mgr sid obs)) = Inr pred
          \<and> amplitudes obs \<noteq> []
          \<and> length (amplitudes pred) = length (amplitudes obs)
          \<and> eigh (env_numpy env)
                (outer (map2 (-) (amplitudes obs) (amplitudes pred))
                   (map cnj (map2 (-) (amplitudes obs) (amplitudes pred)))) = Inl e"
  then have "detect (env_numpy env) (detector mgr) obs pred = Inl e"
    using detect_eigh_raises[of obs pred "env_numpy env" e "detector mgr"] by blast
  with a show "process_tick env mgr sid t ovs = (Inl e, mgr)"
    by (simp add: process_tick_def Let_def)
next
  fix e obs pred det0
  assume a: "build_from_segments (qms_builder mgr) sid t (qms_limit mgr) ovs = Inr obs
          \<and> predict (hamiltonian mgr) (prior_state mgr sid obs)
                (elapsed_dt t (prior_state mgr sid obs)) = Inr pred
          \<and> detect (env_numpy env) (detector mgr) obs pred = Inr det0
          \<and> triggered det0
          \<and> fst (record_event (rvl mgr)
                   \<lparr>rec_id = event_uuid env, rec_session_id = sid, rec_t_rel_ms = t,
                    detection = det0\<lparr>event_id := Some (event_uuid env)\<rparr>,
                    rec_prompt_id = None\<rparr>) = Inl e"
  then have "fst (record_detection env mgr sid t det0) = Inl e"
    using record_detection_sink_raises[of det0 mgr env sid t e] by blast
  then obtain mgr1 where "record_detection env mgr sid t det0 = (Inl e, mgr1)"
    by (cases "record_detection env mgr sid t det0") simp
  with a show "fst (process_tick env mgr sid t ovs) = Inl e"
    by (simp add: process_tick_def Let_def)
qed


lemma failing_library_raises: "fst (record_event failing_library r) = Inl SinkError"
  by (simp add: record_event_def write_audit_def failing_library_def failing_audit_def Let_def)

theorem process_tick_propagates_witness:
  "fst (process_tick example_env accessor_failing_manager ''s1'' 1000 None) = Inl AccessorError
   \<and> fst (process_tick example_env graph_failing_manager ''s1'' 1000 None) = Inl AccessorError
   \<and> fst (process_tick solver_failing_env example_manager ''s1'' 1000 None) = Inl LinAlgError
   \<and> fst (process_tick example_env example_manager ''s1'' 1000 None) = Inl SinkError"
proof -
  let ?obs = "\<lparr>basis = [''a'', ''b''], amplitudes = [1, 0], qms_session_id = Some ''s1'',
               qms_t_rel_ms = Some 1000, qms_norm = 27 / 40, meta = []\<rparr>"
  let ?pred = "\<lparr>basis = [''a'', ''b''], amplitudes = [0, 1], qms_session_id = Some ''s1'',
               qms_t_rel_ms = Some 0, qms_norm = 1, meta = [(''predicted_from'', Some 0)]\<rparr>"
  have a1: "top_segments (qb_repo (qms_builder accessor_failing_manager))
              (qms_limit accessor_failing_manager) = Inl AccessorError"
    by (simp add: accessor_failing_manager_def example_manager_def raising_repo_def)
  have w1: "fst (process_tick example_env accessor_failing_manager ''s1'' 1000 None)
              = Inl AccessorError"
    using process_tick_propagates[of accessor_failing_manager example_env "''s1''" 1000 None,
            THEN conjunct1, rule_format, OF a1]
    by simp
  have b2: "build_from_segments (qms_builder graph_failing_manager) ''s1'' 1000
              (qms_limit graph_failing_manager) None = Inr ?obs"
    using example_observed_built by (simp add: graph_failing_manager_def example_manager_def)
  have g2: "get_graph (hb_repo (hamiltonian graph_failing_manager)) 1 = Inl AccessorError"
    by (simp add: graph_failing_manager_def example_manager_def raising_repo_def)
  have w2: "fst (process_tick example_env graph_failing_manager ''s1'' 1000 None)
              = Inl AccessorError"
    using process_tick_propagates[of graph_failing_manager example_env "''s1''" 1000 None,
            THEN conjunct2, THEN conjunct1, rule_format, of ?obs AccessorError] b2 g2
    by simp
  have b3: "build_from_segments (qms_builder example_manager) ''s1'' 1000
              (qms_limit example_manager) None = Inr ?obs"
    using example_observed_built by (simp add: example_manager_def)
  have p3: "predict (hamiltonian example_manager) (prior_state example_manager ''s1'' ?obs)
              (elapsed_dt 1000 (prior_state example_manager ''s1'' ?obs)) = Inr ?pred"
    using example_predicted_stays by (simp add: example_manager_def prior_state_def)
  have e3: "eigh (env_numpy solver_failing_env)
              (outer (map2 (-) (amplitudes ?obs) (amplitudes ?pred))
                 (map cnj (map2 (-) (amplitudes ?obs) (amplitudes ?pred)))) = Inl LinAlgError"
    by (simp add: solver_failing_env_def)
  have w3: "fst (process_tick solver_failing_env example_manager ''s1'' 1000 None)
              = Inl LinAlgError"
    using process_tick_propagates[of example_manager solver_failing_env "''s1''" 1000 None,
            THEN conjunct2, THEN conjunct2, THEN conjunct1, rule_format,
            of ?obs ?pred LinAlgError] b3 p3 e3
    by simp
  have eg: "eigh example_numpy [[1, - 1], [- 1, 1]]
              = Inr ([0, 2],
                     [[complex_of_real (sqrt 2 / 2), complex_of_real (sqrt 2 / 2)],
                      [complex_of_real (sqrt 2 / 2), - complex_of_real (sqrt 2 / 2)]])"
    by (simp add: example_numpy_def example_eigh_def)
  from detect_pair_triggered[of ?obs ?pred example_numpy, OF _ _ _ _ argsort_stable_perm eg _
         example_eigh_approx]
  obtain det0 where d4: "detect example_numpy default_detector ?obs ?pred = Inr det0"
    and t4: "triggered det0"
    by auto
  have d4': "detect (env_numpy example_env) (detector example_manager) ?obs ?pred = Inr det0"
    using d4 by (simp add: example_env_def example_manager_def)
  have r4: "fst (record_event (rvl example_manager)
                   \<lparr>rec_id = event_uuid example_env, rec_session_id = ''s1'', rec_t_rel_ms = 1000,
                    detection = det0\<lparr>event_id := Some (event_uuid example_env)\<rparr>,
                    rec_prompt_id = None\<rparr>) = Inl SinkError"
    using failing_library_raises by (simp add: example_manager_def)
  have w4: "fst (process_tick example_env example_manager ''s1'' 1000 None) = Inl SinkError"
    using process_tick_propagates[of example_manager example_env "''s1''" 1000 None,
            THEN conjunct2, THEN conjunct2, THEN conjunct2, rule_format,
            of ?obs ?pred det0 SinkError] b3 p3 d4' t4 r4
    by blast
  from w1 w2 w3 w4 show ?thesis by blast
qed

end
